theory Spec2Isabelle
  imports Complex_Main "HOL-Library.AList" "HOL-Library.List_Lexorder" "HOL-Library.Char_ord"
begin

text \<open>
  A shallow embedding of the package \<^verbatim>\<open>remote\<close> of terraform-provider-remote, which
  proxies the lifecycle of a resource to a remote function.  The source file
  \<^verbatim>\<open>src/unnamed/part_001\<close> holds three successive versions of the package; the model
  follows the last one (from line 214 on), and the line numbers below are those of that
  file.
\<close>

section \<open>Go values\<close>

text \<open>
  The provider handles untyped JSON throughout: every document is a Go
  \<^verbatim>\<open>interface{}\<close> holding what \<^verbatim>\<open>encoding/json\<close> decodes into
  (nil, bool, float64, string, []interface{}, map[string]interface{}).  The values the
  plugin SDK hands out for resource attributes (\<^verbatim>\<open>d.Get\<close>) live in the same
  universe: a string attribute is a string, a list attribute a []interface{}.

  A non-nil \<^verbatim>\<open>map[string]interface{}\<close> is an association list: \<^verbatim>\<open>m[k]\<close> is
  \<open>map_of m k\<close>, \<^verbatim>\<open>m[k] = v\<close> is \<open>AList.update k v m\<close>, and
  \<^verbatim>\<open>for k, v := range m\<close> visits the entries in list order.  A nil map is \<open>None\<close>
  of type \<open>gomap option\<close>; reading a nil map finds no key.
\<close>

datatype goval =
    GNil
  | GBool bool
  | GNum real
  | GStr string
  | GList "goval list"
  | GMap "(string \<times> goval) list"

type_synonym gomap = "(string \<times> goval) list"

definition lookup :: "gomap option \<Rightarrow> string \<Rightarrow> goval option" where
  "lookup m k = (case m of None \<Rightarrow> None | Some xs \<Rightarrow> map_of xs k)"

section \<open>Errors\<close>

datatype error =
    MarshalError
  | UnmarshalError
  | TransportError string
  | LambdaError string
  | ArgsNotJSONObject error string
  | ArgsBadType
  | Wrapped string error
  | ValidationLoadError string string
  | SchemaViolations string "string list"
  | MissingId string
  | StoreMarshalError
  | ForceNewError
  | NilDereference

section \<open>The environment: libraries, the remote function, the process environment\<close>

text \<open>
  What the package calls but does not define is a parameter of the model:
  \<^item> \<open>Unmarshal\<close>: \<^verbatim>\<open>json.Unmarshal\<close> into an \<^verbatim>\<open>interface{}\<close>; \<open>None\<close> is a syntax error;
  \<^item> \<open>Marshal\<close>: \<^verbatim>\<open>json.Marshal\<close>; \<open>None\<close> is its error;
  \<^item> \<open>Sprint\<close>: \<^verbatim>\<open>fmt.Sprintf("%v", v)\<close>;
  \<^item> \<open>AsSchemas\<close>: the re-encoding of the \<^verbatim>\<open>schema\<close> reply's result into the struct
    \<^verbatim>\<open>lambdaSchemaResponse\<close> (\<^verbatim>\<open>json.Marshal\<close> then \<^verbatim>\<open>json.Unmarshal\<close>, errors dropped);
  \<^item> \<open>Validate\<close>: \<^verbatim>\<open>gojsonschema.Validate\<close> of a document against a schema; \<open>Inl\<close> is
    its own error, \<open>Inr es\<close> the list \<^verbatim>\<open>result.Errors()\<close>, valid when empty;
  \<^item> \<open>Invoke\<close>: \<^verbatim>\<open>client.Svc.Invoke\<close>, the remote function.  It is given the calls made
    so far, the function name and the request bytes, so that a remote function with a
    state of its own is covered;
  \<^item> \<open>TF_LOG\<close>, \<open>TF_IN_AUTOMATION\<close>: \<^verbatim>\<open>os.Getenv\<close> of these names.
\<close>

record lambdaPayload =
  Action :: string
  Args :: "gomap option"
  State :: "gomap option"
  Store :: "gomap option"
  Planning :: bool

record lambdaResponse =
  ID :: string
  Result :: "gomap option"
  RStore :: "gomap option"
  Replace :: bool
  Reason :: string

record lambdaSchemaResponse =
  Request :: "gomap option"
  Response :: "gomap option"

record InvokeOutput =
  FunctionError :: "string option"
  Payload :: string

type_synonym reply = "string + InvokeOutput"

type_synonym world = "(lambdaPayload \<times> reply) list"

record env =
  Unmarshal :: "string \<Rightarrow> goval option"
  Marshal :: "goval \<Rightarrow> string option"
  Sprint :: "goval \<Rightarrow> string"
  AsSchemas :: "gomap option \<Rightarrow> lambdaSchemaResponse"
  Validate :: "gomap \<Rightarrow> gomap option \<Rightarrow> string + string list"
  Invoke :: "world \<Rightarrow> string \<Rightarrow> string \<Rightarrow> reply"
  TF_LOG :: string
  TF_IN_AUTOMATION :: string

text \<open>
  \<^verbatim>\<open>json.Unmarshal(bytes, &m)\<close> for \<^verbatim>\<open>m\<close> of type \<^verbatim>\<open>map[string]interface{}\<close>, at
  the call sites of this package, where \<^verbatim>\<open>m\<close> is nil or empty beforehand: a JSON object
  becomes the map, JSON \<^verbatim>\<open>null\<close> sets \<^verbatim>\<open>m\<close> to nil, and on an error (bad syntax, or
  a value that is not an object) \<^verbatim>\<open>m\<close> keeps its value \<open>cur\<close>.
\<close>

definition unmarshalMap :: "env \<Rightarrow> string \<Rightarrow> gomap option \<Rightarrow> error option \<times> gomap option" where
  "unmarshalMap E s cur =
     (case Unmarshal E s of
        None \<Rightarrow> (Some UnmarshalError, cur)
      | Some GNil \<Rightarrow> (None, None)
      | Some (GMap m) \<Rightarrow> (None, Some m)
      | Some _ \<Rightarrow> (Some UnmarshalError, cur))"

section \<open>Argument Merger\<close>

text \<open>
  \<^verbatim>\<open>deepMerge(dst, src)\<close> (lines 829-839) updates \<^verbatim>\<open>dst\<close> in place; the model
  returns the updated map.  A nested map of \<^verbatim>\<open>dst\<close> that is merged into is updated
  in place as well, which is the update of \<^verbatim>\<open>dst\<close> at that key.
\<close>

function deepMerge :: "gomap \<Rightarrow> gomap \<Rightarrow> gomap" where
  "deepMerge dst [] = dst"
| "deepMerge dst ((k, v) # src) =
     deepMerge
       (case v of
          GMap vmap \<Rightarrow>
            (case map_of dst k of
               Some (GMap dmap) \<Rightarrow> AList.update k (GMap (deepMerge dmap vmap)) dst
             | _ \<Rightarrow> AList.update k v dst)
        | _ \<Rightarrow> AList.update k v dst)
       src"
  by pat_completeness auto
termination
  by (relation "measure (\<lambda>(dst, src). size_list (size_prod (\<lambda>_. 0) size) src)") auto

text \<open>
  \<^verbatim>\<open>parseArgsJSON\<close> (lines 370-398).  The loop over the fragments of the list form
  is \<open>parseArgsLoop\<close>, with \<^verbatim>\<open>final\<close> as its accumulator: an element that is not
  a string, or that does not decode into a map, is skipped (\<^verbatim>\<open>continue\<close>);
  \<^verbatim>\<open>deepMerge(final, m)\<close> with a nil \<^verbatim>\<open>m\<close> ranges over nothing.
\<close>

fun parseArgsLoop :: "env \<Rightarrow> gomap \<Rightarrow> goval list \<Rightarrow> gomap" where
  "parseArgsLoop E final [] = final"
| "parseArgsLoop E final (el # arr) =
     (case el of
        GStr s \<Rightarrow>
          (case unmarshalMap E s None of
             (Some err, _) \<Rightarrow> parseArgsLoop E final arr
           | (None, m) \<Rightarrow>
               parseArgsLoop E (deepMerge final (case m of None \<Rightarrow> [] | Some xs \<Rightarrow> xs)) arr)
      | _ \<Rightarrow> parseArgsLoop E final arr)"

definition parseArgsJSON :: "env \<Rightarrow> goval \<Rightarrow> error + gomap option" where
  "parseArgsJSON E argsInput =
     (case argsInput of
        GList arr \<Rightarrow> Inr (Some (parseArgsLoop E [] arr))
      | GStr s \<Rightarrow>
          (case unmarshalMap E s None of
             (Some err, _) \<Rightarrow> Inl (ArgsNotJSONObject err s)
           | (None, m) \<Rightarrow> Inr m)
      | _ \<Rightarrow> Inl ArgsBadType)"

section \<open>Resource data of the plugin SDK\<close>

text \<open>
  \<^verbatim>\<open>schema.ResourceData\<close>, as far as this package uses it: the id (\<^verbatim>\<open>d.Id\<close>,
  \<^verbatim>\<open>d.SetId\<close>), the attributes \<^verbatim>\<open>args\<close>, \<^verbatim>\<open>result\<close> and \<^verbatim>\<open>store\<close>
  (\<^verbatim>\<open>d.Get\<close>, \<^verbatim>\<open>d.GetOk\<close>, \<^verbatim>\<open>d.Set\<close>) and \<^verbatim>\<open>d.IsNewResource()\<close>.  The resource
  schema (lines 475-494) declares \<^verbatim>\<open>args\<close> a list of strings, \<^verbatim>\<open>result\<close> a map and
  \<^verbatim>\<open>store\<close> a string; the code reads them through type assertions, so an attribute is a
  \<open>goval\<close> and each assertion is a case distinction.  \<^verbatim>\<open>d.Set\<close> of a string to
  \<^verbatim>\<open>store\<close> and of a map of strings to \<^verbatim>\<open>result\<close> writes the attribute.
\<close>

record ResourceData =
  Id :: string
  attr_args :: goval
  attr_result :: goval
  attr_store :: goval
  IsNewResource :: bool

text \<open>\<^verbatim>\<open>d.GetOk\<close> returns the value and whether it is set to a non-zero value.\<close>

fun isZero :: "goval \<Rightarrow> bool" where
  "isZero GNil = True"
| "isZero (GBool b) = (\<not> b)"
| "isZero (GNum x) = (x = 0)"
| "isZero (GStr s) = (s = [])"
| "isZero (GList xs) = (xs = [])"
| "isZero (GMap m) = (m = [])"

definition GetOk :: "goval \<Rightarrow> goval \<times> bool" where
  "GetOk v = (v, \<not> isZero v)"

text \<open>
  \<^verbatim>\<open>ResourceData.State()\<close> is what the host persists after a create, read or update
  operation: it is nil, the resource being gone from the state, when the id is empty.
\<close>

definition persisted :: "ResourceData \<Rightarrow> (string \<times> goval \<times> goval) option" where
  "persisted d = (if Id d = [] then None else Some (Id d, attr_result d, attr_store d))"

text \<open>
  \<^verbatim>\<open>schema.ResourceDiff\<close> for \<^verbatim>\<open>CustomizeDiff\<close>: \<^verbatim>\<open>d.Get("args")\<close> is the planned
  value, \<^verbatim>\<open>d.GetChange("args")\<close> the pair of the prior and the planned value,
  \<^verbatim>\<open>d.ForceNew("args")\<close> marks the attribute for replacement and fails when the
  attribute has no change.
\<close>

record ResourceDiff =
  new_args :: goval
  old_args :: goval
  diff_store :: goval
  forcedNew :: bool

definition ForceNew :: "ResourceDiff \<Rightarrow> error + ResourceDiff" where
  "ForceNew d = (if old_args d = new_args d then Inl ForceNewError
                 else Inr (d\<lparr>forcedNew := True\<rparr>))"

section \<open>Remote Invoker\<close>

record remoteClient =
  LambdaName :: string
  once :: bool
  schemas :: "lambdaSchemaResponse option"
  schemaErr :: "error option"

text \<open>
  The JSON form of \<^verbatim>\<open>lambdaPayload\<close> by its struct tags (lines 290-296):
  \<^verbatim>\<open>state\<close>, \<^verbatim>\<open>store\<close> and \<^verbatim>\<open>planning\<close> are \<^verbatim>\<open>omitempty\<close>.
\<close>

definition payloadJSON :: "lambdaPayload \<Rightarrow> goval" where
  "payloadJSON p = GMap
     ([(''action'', GStr (Action p)),
       (''args'', (case Args p of None \<Rightarrow> GNil | Some m \<Rightarrow> GMap m))]
      @ (case State p of Some (x # xs) \<Rightarrow> [(''state'', GMap (x # xs))] | _ \<Rightarrow> [])
      @ (case Store p of Some (x # xs) \<Rightarrow> [(''store'', GMap (x # xs))] | _ \<Rightarrow> [])
      @ (if Planning p then [(''planning'', GBool True)] else []))"

text \<open>
  \<^verbatim>\<open>invokeLambda\<close> (lines 498-584) in two parts.  \<open>readReply\<close> is what it does with the
  outcome of \<^verbatim>\<open>client.Svc.Invoke\<close> (lines 508-583): a transport error and a function
  error end it, then the payload is decoded into \<^verbatim>\<open>out\<close> and the response is put
  together from \<^verbatim>\<open>out["result"]\<close>, \<^verbatim>\<open>out["store"]\<close>, \<^verbatim>\<open>out["replace"]\<close>,
  \<^verbatim>\<open>out["reason"]\<close> and \<^verbatim>\<open>resultVal["id"]\<close>.
\<close>

definition readReply :: "env \<Rightarrow> reply \<Rightarrow> error + lambdaResponse" where
  "readReply E r =
     (case r of
        Inl err \<Rightarrow> Inl (TransportError err)
      | Inr resp \<Rightarrow>
          if FunctionError resp \<noteq> None then Inl (LambdaError (Payload resp))
          else
            (case unmarshalMap E (Payload resp) None of
               (Some err, _) \<Rightarrow> Inl err
             | (None, out) \<Rightarrow>
                 let resultVal =
                       (case lookup out ''result'' of
                          Some res \<Rightarrow>
                            (case res of
                               GMap v \<Rightarrow> Some v
                             | GStr v \<Rightarrow>
                                 (case unmarshalMap E v None of
                                    (Some err, _) \<Rightarrow> Some []
                                  | (None, m) \<Rightarrow> m)
                             | _ \<Rightarrow> Some [])
                        | None \<Rightarrow> Some []);
                     storeVal =
                       (case lookup out ''store'' of
                          Some store \<Rightarrow>
                            (case store of
                               GMap v \<Rightarrow> Some v
                             | GStr v \<Rightarrow> snd (unmarshalMap E v None)
                             | _ \<Rightarrow> Some [])
                        | None \<Rightarrow> None);
                     replace = (case lookup out ''replace'' of Some (GBool b) \<Rightarrow> b | _ \<Rightarrow> False);
                     reason = (case lookup out ''reason'' of Some (GStr s) \<Rightarrow> s | _ \<Rightarrow> []);
                     id = (case lookup resultVal ''id'' of Some (GStr s) \<Rightarrow> s | _ \<Rightarrow> [])
                 in Inr \<lparr>ID = id, Result = resultVal, RStore = storeVal,
                         Replace = replace, Reason = reason\<rparr>))"

text \<open>
  The first part (lines 498-507) encodes the payload and invokes the remote function.  The
  world \<open>w\<close> is the list of the calls made so far, each with the outcome of
  \<^verbatim>\<open>Svc.Invoke\<close>; a call is added exactly when \<^verbatim>\<open>Svc.Invoke\<close> runs.
\<close>

definition invokeLambda ::
  "env \<Rightarrow> remoteClient \<Rightarrow> world \<Rightarrow> lambdaPayload \<Rightarrow> (error + lambdaResponse) \<times> world" where
  "invokeLambda E client w payload =
     (case Marshal E (payloadJSON payload) of
        None \<Rightarrow> (Inl MarshalError, w)
      | Some bytes \<Rightarrow>
          let r = Invoke E w (LambdaName client) bytes
          in (readReply E r, w @ [(payload, r)]))"

section \<open>Schema Cache\<close>

text \<open>
  \<^verbatim>\<open>getSchemas\<close> (lines 306-342).  \<^verbatim>\<open>c.once.Do(f)\<close> runs \<^verbatim>\<open>f\<close> when \<^verbatim>\<open>c.once\<close> has
  not run anything yet, and is spent afterwards whatever \<^verbatim>\<open>f\<close> did; the field \<open>once\<close>
  says that it is spent.  The calls are taken one after the other.
\<close>

definition getSchemas ::
  "env \<Rightarrow> remoteClient \<Rightarrow> world \<Rightarrow>
     (lambdaSchemaResponse option \<times> error option) \<times> remoteClient \<times> world" where
  "getSchemas E c w =
     (if once c then ((schemas c, schemaErr c), c, w)
      else
        (case invokeLambda E c w
                \<lparr>Action = ''schema'', Args = None, State = None, Store = None,
                 Planning = False\<rparr> of
           (Inl err, w') \<Rightarrow>
             let c' = c\<lparr>once := True, schemaErr := Some err\<rparr>
             in ((schemas c', schemaErr c'), c', w')
         | (Inr resp, w') \<Rightarrow>
             let schemaResp =
                   (if Result resp \<noteq> None then AsSchemas E (Result resp)
                    else \<lparr>Request = None, Response = None\<rparr>);
                 c' = c\<lparr>once := True, schemas := Some schemaResp\<rparr>
             in ((schemas c', schemaErr c'), c', w')))"

section \<open>Validator\<close>

text \<open>\<^verbatim>\<open>validateWithSchema\<close> (lines 344-367); \<open>None\<close> is the nil error.\<close>

definition validateWithSchema ::
  "env \<Rightarrow> gomap option \<Rightarrow> gomap option \<Rightarrow> string \<Rightarrow> error option" where
  "validateWithSchema E schema doc side =
     (case schema of
        None \<Rightarrow> None
      | Some sch \<Rightarrow>
          if length sch = 0 then None
          else
            (case Validate E sch doc of
               Inl err \<Rightarrow> Some (ValidationLoadError side err)
             | Inr errors \<Rightarrow>
                 if errors \<noteq> [] then Some (SchemaViolations side errors) else None))"

section \<open>Store Codec and helpers of the operations\<close>

text \<open>
  The store is read from the resource data by the same lines in every operation (604-610,
  648-654, 697-703, 756-762, and 434-440 in \<^verbatim>\<open>CustomizeDiff\<close>): it starts as the empty
  map, and a non-empty string attribute is decoded into it, the error dropped.
\<close>

definition loadStore :: "env \<Rightarrow> goval \<Rightarrow> gomap option" where
  "loadStore E attr =
     (case GetOk attr of
        (v, ok) \<Rightarrow>
          if ok then
            (case v of
               GStr storeStr \<Rightarrow>
                 if storeStr \<noteq> [] then snd (unmarshalMap E storeStr (Some [])) else Some []
             | _ \<Rightarrow> Some [])
          else Some [])"

text \<open>\<^verbatim>\<open>setStoreAsJSONString\<close> (lines 586-595).\<close>

definition setStoreAsJSONString ::
  "env \<Rightarrow> ResourceData \<Rightarrow> gomap option \<Rightarrow> error option \<times> ResourceData" where
  "setStoreAsJSONString E d store =
     (case store of
        None \<Rightarrow> (None, d\<lparr>attr_store := GStr []\<rparr>)
      | Some m \<Rightarrow>
          (case Marshal E (GMap m) of
             None \<Rightarrow> (Some StoreMarshalError, d)
           | Some bytes \<Rightarrow> (None, d\<lparr>attr_store := GStr bytes\<rparr>)))"

text \<open>\<^verbatim>\<open>getPreviousArgs\<close> (lines 402-419); the resource data is never nil here.\<close>

definition getPreviousArgs :: "env \<Rightarrow> ResourceData \<Rightarrow> gomap option" where
  "getPreviousArgs E d =
     (if IsNewResource d then Some []
      else
        (case GetOk (attr_args d) of
           (v, ok) \<Rightarrow>
             if \<not> ok then Some []
             else
               (case v of
                  GStr argsStr \<Rightarrow>
                    if argsStr = [] then Some []
                    else
                      (case parseArgsJSON E (GStr argsStr) of
                         Inl err \<Rightarrow> Some []
                       | Inr m \<Rightarrow> m)
                | _ \<Rightarrow> Some [])))"

text \<open>\<^verbatim>\<open>isPlanning\<close> (lines 810-812) and \<^verbatim>\<open>mapStringValues\<close> (lines 814-826).\<close>

definition isPlanning :: "env \<Rightarrow> bool" where
  "isPlanning E = (TF_LOG E = ''TRACE'' \<and> TF_IN_AUTOMATION E = ''1'')"

definition mapStringValues :: "env \<Rightarrow> gomap option \<Rightarrow> goval" where
  "mapStringValues E input =
     GMap (map (\<lambda>(k, v). (k, (case v of GStr val \<Rightarrow> GStr val | _ \<Rightarrow> GStr (Sprint E v))))
             (case input of None \<Rightarrow> [] | Some xs \<Rightarrow> xs))"

section \<open>Lifecycle Orchestrator\<close>

text \<open>
  An operation takes the client, the world and the resource data and returns the error
  (\<open>None\<close> for nil diagnostics) with the three as it leaves them.  A nil
  \<^verbatim>\<open>schemas\<close> with a nil error would be dereferenced: that panic is the error
  \<open>NilDereference\<close>.
\<close>

type_synonym outcome = "error option \<times> remoteClient \<times> world \<times> ResourceData"

text \<open>\<^verbatim>\<open>resourceRemoteCreate\<close> (lines 597-639).\<close>

definition resourceRemoteCreate ::
  "env \<Rightarrow> remoteClient \<Rightarrow> world \<Rightarrow> ResourceData \<Rightarrow> outcome" where
  "resourceRemoteCreate E client w d =
     (case parseArgsJSON E (attr_args d) of
        Inl err \<Rightarrow> (Some (Wrapped ''create'' err), client, w, d)
      | Inr args \<Rightarrow>
          let store = loadStore E (attr_store d);
              state = Some []
          in
          (case getSchemas E client w of
             ((_, Some err), c1, w1) \<Rightarrow> (Some err, c1, w1, d)
           | ((None, None), c1, w1) \<Rightarrow> (Some NilDereference, c1, w1, d)
           | ((Some sch, None), c1, w1) \<Rightarrow>
               (case validateWithSchema E (Request sch) args ''request'' of
                  Some err \<Rightarrow> (Some err, c1, w1, d)
                | None \<Rightarrow>
                    (case invokeLambda E c1 w1
                            \<lparr>Action = ''create'', Args = args, State = state, Store = store,
                             Planning = isPlanning E\<rparr> of
                       (Inl err, w2) \<Rightarrow> (Some err, c1, w2, d)
                     | (Inr res, w2) \<Rightarrow>
                         if ID res = [] then (Some (MissingId ''create''), c1, w2, d)
                         else
                           (case validateWithSchema E (Response sch) (Result res)
                                   ''response'' of
                              Some err \<Rightarrow> (Some err, c1, w2, d)
                            | None \<Rightarrow>
                                let d1 = d\<lparr>Id := ID res\<rparr>;
                                    d2 = d1\<lparr>attr_result := mapStringValues E (Result res)\<rparr>
                                in
                                (case setStoreAsJSONString E d2 (RStore res) of
                                   (Some err, d3) \<Rightarrow> (Some err, c1, w2, d3)
                                 | (None, d3) \<Rightarrow> (None, c1, w2, d3)))))))"

text \<open>\<^verbatim>\<open>resourceRemoteRead\<close> (lines 641-688).\<close>

definition resourceRemoteRead ::
  "env \<Rightarrow> remoteClient \<Rightarrow> world \<Rightarrow> ResourceData \<Rightarrow> outcome" where
  "resourceRemoteRead E client w d =
     (case parseArgsJSON E (attr_args d) of
        Inl err \<Rightarrow> (Some (Wrapped ''read'' err), client, w, d)
      | Inr args \<Rightarrow>
          let store = loadStore E (attr_store d);
              state = getPreviousArgs E d
          in
          (case getSchemas E client w of
             ((_, Some err), c1, w1) \<Rightarrow> (Some err, c1, w1, d)
           | ((None, None), c1, w1) \<Rightarrow> (Some NilDereference, c1, w1, d)
           | ((Some sch, None), c1, w1) \<Rightarrow>
               (case validateWithSchema E (Request sch) args ''request'' of
                  Some err \<Rightarrow> (Some err, c1, w1, d)
                | None \<Rightarrow>
                    (case invokeLambda E c1 w1
                            \<lparr>Action = ''read'', Args = args, State = state, Store = store,
                             Planning = isPlanning E\<rparr> of
                       (Inl err, w2) \<Rightarrow> (Some (Wrapped ''remote read failed'' err), c1, w2, d)
                     | (Inr res, w2) \<Rightarrow>
                         if ID res = [] then (None, c1, w2, d\<lparr>Id := []\<rparr>)
                         else
                           (case validateWithSchema E (Response sch) (Result res)
                                   ''response'' of
                              Some err \<Rightarrow> (Some err, c1, w2, d)
                            | None \<Rightarrow>
                                let d1 = d\<lparr>Id := ID res\<rparr>;
                                    d2 = d1\<lparr>attr_result := mapStringValues E (Result res)\<rparr>
                                in
                                (case setStoreAsJSONString E d2 (RStore res) of
                                   (Some err, d3) \<Rightarrow> (Some err, c1, w2, d3)
                                 | (None, d3) \<Rightarrow> (None, c1, w2, d3)))))))"

text \<open>\<^verbatim>\<open>resourceRemoteUpdate\<close> (lines 690-746).\<close>

definition resourceRemoteUpdate ::
  "env \<Rightarrow> remoteClient \<Rightarrow> world \<Rightarrow> ResourceData \<Rightarrow> outcome" where
  "resourceRemoteUpdate E client w d =
     (case parseArgsJSON E (attr_args d) of
        Inl err \<Rightarrow> (Some (Wrapped ''update'' err), client, w, d)
      | Inr args \<Rightarrow>
          let store = loadStore E (attr_store d);
              state = getPreviousArgs E d
          in
          (case getSchemas E client w of
             ((_, Some err), c1, w1) \<Rightarrow> (Some err, c1, w1, d)
           | ((None, None), c1, w1) \<Rightarrow> (Some NilDereference, c1, w1, d)
           | ((Some sch, None), c1, w1) \<Rightarrow>
               (case validateWithSchema E (Request sch) args ''request'' of
                  Some err \<Rightarrow> (Some err, c1, w1, d)
                | None \<Rightarrow>
                    (case invokeLambda E c1 w1
                            \<lparr>Action = ''update'', Args = args, State = state, Store = store,
                             Planning = isPlanning E\<rparr> of
                       (Inl err, w2) \<Rightarrow> (Some err, c1, w2, d)
                     | (Inr res, w2) \<Rightarrow>
                         if ID res = [] then (Some (MissingId ''update''), c1, w2, d)
                         else
                           (case validateWithSchema E (Response sch) (Result res)
                                   ''response'' of
                              Some err \<Rightarrow> (Some err, c1, w2, d)
                            | None \<Rightarrow>
                                let d1 = d\<lparr>Id := ID res\<rparr>;
                                    d2 = d1\<lparr>attr_result := mapStringValues E (Result res)\<rparr>
                                in
                                (case setStoreAsJSONString E d2 (RStore res) of
                                   (Some err, d3) \<Rightarrow> (Some err, c1, w2, d3)
                                 | (None, d3) \<Rightarrow> (None, c1, w2, d3)))))))"

text \<open>\<^verbatim>\<open>resourceRemoteDelete\<close> (lines 749-789).\<close>

definition resourceRemoteDelete ::
  "env \<Rightarrow> remoteClient \<Rightarrow> world \<Rightarrow> ResourceData \<Rightarrow> outcome" where
  "resourceRemoteDelete E client w d =
     (case parseArgsJSON E (attr_args d) of
        Inl err \<Rightarrow> (Some (Wrapped ''delete'' err), client, w, d)
      | Inr args \<Rightarrow>
          let store = loadStore E (attr_store d);
              state = getPreviousArgs E d
          in
          (case getSchemas E client w of
             ((_, Some err), c1, w1) \<Rightarrow> (Some err, c1, w1, d)
           | ((None, None), c1, w1) \<Rightarrow> (Some NilDereference, c1, w1, d)
           | ((Some sch, None), c1, w1) \<Rightarrow>
               (case validateWithSchema E (Request sch) args ''request'' of
                  Some err \<Rightarrow> (Some err, c1, w1, d)
                | None \<Rightarrow>
                    (case invokeLambda E c1 w1
                            \<lparr>Action = ''delete'', Args = args, State = state, Store = store,
                             Planning = isPlanning E\<rparr> of
                       (Inl err, w2) \<Rightarrow> (Some err, c1, w2, d)
                     | (Inr res, w2) \<Rightarrow>
                         if ID res = [] then (None, c1, w2, d\<lparr>Id := []\<rparr>)
                         else
                           let d1 = d\<lparr>Id := ID res\<rparr>;
                               d2 = d1\<lparr>attr_result := mapStringValues E (Result res)\<rparr>
                           in
                           (case setStoreAsJSONString E d2 (RStore res) of
                              (Some err, d3) \<Rightarrow> (Some err, c1, w2, d3)
                            | (None, d3) \<Rightarrow> (None, c1, w2, d3))))))"

section \<open>Diff Engine\<close>

text \<open>
  \<^verbatim>\<open>CustomizeDiff\<close> of \<^verbatim>\<open>resourceRemote\<close> (lines 427-474).  \<^verbatim>\<open>old.(string)\<close> gives
  the string and true for a string, the empty string and false for anything else.
\<close>

definition CustomizeDiff ::
  "env \<Rightarrow> remoteClient \<Rightarrow> world \<Rightarrow> ResourceDiff \<Rightarrow> error option \<times> world \<times> ResourceDiff" where
  "CustomizeDiff E client w d =
     (case parseArgsJSON E (new_args d) of
        Inl err \<Rightarrow> (Some (Wrapped ''CustomizeDiff'' err), w, d)
      | Inr args \<Rightarrow>
          let store = loadStore E (diff_store d);
              old = old_args d;
              (oldArgsStr, ok) = (case old of GStr s \<Rightarrow> (s, True) | _ \<Rightarrow> ([], False));
              isCreate = (\<not> ok \<or> oldArgsStr = [] \<or> oldArgsStr = ''{}'')
          in
          (case (if \<not> isCreate then
                   (case parseArgsJSON E (GStr oldArgsStr) of
                      Inl err \<Rightarrow> Inl (Wrapped ''CustomizeDiff: old args not valid JSON'' err)
                    | Inr m \<Rightarrow> Inr m)
                 else Inr (Some [])) of
             Inl err \<Rightarrow> (Some err, w, d)
           | Inr oldArgs \<Rightarrow>
               if isCreate then (None, w, d)
               else
                 (case invokeLambda E client w
                         \<lparr>Action = ''diff'', Args = args, State = oldArgs, Store = store,
                          Planning = False\<rparr> of
                    (Inl err, w') \<Rightarrow> (Some err, w', d)
                  | (Inr res, w') \<Rightarrow>
                      if Replace res then
                        (case ForceNew d of
                           Inl err \<Rightarrow>
                             (Some (Wrapped ''failed to mark args for replacement'' err), w', d)
                         | Inr d' \<Rightarrow> (None, w', d'))
                      else (None, w', d))))"

text \<open>
  \<^verbatim>\<open>resourceRemote\<close> (lines 421-426) registers the four operations with the host.
\<close>

datatype operation = Create | Read | Update | Delete

definition resourceRemote ::
  "operation \<Rightarrow> env \<Rightarrow> remoteClient \<Rightarrow> world \<Rightarrow> ResourceData \<Rightarrow> outcome" where
  "resourceRemote op =
     (case op of
        Create \<Rightarrow> resourceRemoteCreate
      | Read \<Rightarrow> resourceRemoteRead
      | Update \<Rightarrow> resourceRemoteUpdate
      | Delete \<Rightarrow> resourceRemoteDelete)"

text \<open>
  What the host does around the delete operation (\<^verbatim>\<open>schema.Resource.Apply\<close> of the
  plugin SDK, on a destroy): a resource without id is gone and the operation is not run;
  when the operation returns an error, the host keeps the state of the resource data as
  the operation left them; when it returns none, the host sets the id to the empty string
  itself and the resource has no state any more.
\<close>

definition hostDelete ::
  "env \<Rightarrow> remoteClient \<Rightarrow> world \<Rightarrow> ResourceData \<Rightarrow>
     error option \<times> remoteClient \<times> world \<times> (string \<times> goval \<times> goval) option" where
  "hostDelete E client w d =
     (if Id d = [] then (None, client, w, None)
      else
        (case resourceRemoteDelete E client w d of
           (Some err, c', w', d') \<Rightarrow> (Some err, c', w', persisted d')
         | (None, c', w', d') \<Rightarrow> (None, c', w', persisted (d'\<lparr>Id := []\<rparr>))))"

section \<open>Notions used by the properties\<close>

text \<open>
  The three ways an invocation fails in \<^verbatim>\<open>invokeLambda\<close> (lines 508-522): the transport
  returns an error, the function error indicator is set, or the payload does not decode
  into a map.
\<close>

definition invocationFails :: "env \<Rightarrow> reply \<Rightarrow> bool" where
  "invocationFails E r =
     (case r of
        Inl err \<Rightarrow> True
      | Inr resp \<Rightarrow>
          FunctionError resp \<noteq> None \<or> fst (unmarshalMap E (Payload resp) None) \<noteq> None)"

text \<open>The request of the \<^verbatim>\<open>schema\<close> action (line 310).\<close>

definition schemaPayload :: lambdaPayload where
  "schemaPayload =
     \<lparr>Action = ''schema'', Args = None, State = None, Store = None, Planning = False\<rparr>"

text \<open>
  A sequence of \<^verbatim>\<open>getSchemas\<close> calls on one client.  Between two of them the
  operations that share the client make calls of their own: \<open>between\<close> is the list of
  those made before the next \<^verbatim>\<open>getSchemas\<close> call.
\<close>

fun getSchemasCalls ::
  "env \<Rightarrow> remoteClient \<Rightarrow> world \<Rightarrow> world list \<Rightarrow>
     (lambdaSchemaResponse option \<times> error option) list \<times> remoteClient \<times> world" where
  "getSchemasCalls E c w [] = ([], c, w)"
| "getSchemasCalls E c w (between # rest) =
     (case getSchemas E c (w @ between) of
        (r, c1, w1) \<Rightarrow>
          (case getSchemasCalls E c1 w1 rest of
             (rs, c2, w2) \<Rightarrow> (r # rs, c2, w2)))"

section \<open>A model of encoding/json\<close>

text \<open>
  The store is written with \<^verbatim>\<open>json.Marshal\<close> and read with \<^verbatim>\<open>json.Unmarshal\<close>.  The
  operations above take the two as parameters; what they do to a store is a property of
  the library, so here is a model of the library itself, for the values of type
  \<open>goval\<close>: the encoder writes compact JSON, the keys of a map in increasing order, a
  string with the escapes of \<^verbatim>\<open>encoding/json\<close> (backslash forms for the quote, the
  backslash, backspace, form feed, newline, carriage return and tab, and
  \<^verbatim>\<open>\u00XX\<close> for the other bytes below 0x20 and for \<^verbatim>\<open><\<close>, \<^verbatim>\<open>>\<close> and
  \<^verbatim>\<open>&\<close>); the decoder skips white space, takes every escape of JSON, keeps the last of
  repeated keys, and fails on anything else.  The decoder runs on fuel, one unit for each
  nested call, and is started with more fuel than the text has characters.

  Left to parameters, or left out: the text of a number and its value
  (\<^verbatim>\<open>strconv.FormatFloat\<close> and \<^verbatim>\<open>strconv.ParseFloat\<close>, floating point) are the record
  \<open>strconv\<close>; strings are taken as well-formed UTF-8, so bytes from 0x80 on are copied
  (\<^verbatim>\<open>encoding/json\<close> replaces ill-formed bytes and escapes U+2028 and U+2029), and an
  escaped surrogate is a failure of the decoder.  A struct is encoded as the map of its
  fields.
\<close>

record strconv =
  FormatFloat :: "real \<Rightarrow> string"
  ParseFloat :: "string \<Rightarrow> real option"

definition isSpace :: "char \<Rightarrow> bool" where
  "isSpace c = (c = CHR '' '' \<or> c = CHR 0x09 \<or> c = CHR 0x0A \<or> c = CHR 0x0D)"

definition isNumChar :: "char \<Rightarrow> bool" where
  "isNumChar c = (c \<in> set ''0123456789+-.eE'')"

definition hexDigit :: "nat \<Rightarrow> char" where
  "hexDigit n = ''0123456789abcdef'' ! n"

definition hexVal :: "char \<Rightarrow> nat option" where
  "hexVal c =
     (let n = of_char c :: nat in
      if 48 \<le> n \<and> n \<le> 57 then Some (n - 48)
      else if 97 \<le> n \<and> n \<le> 102 then Some (n - 87)
      else if 65 \<le> n \<and> n \<le> 70 then Some (n - 55)
      else None)"

definition encChar :: "char \<Rightarrow> string" where
  "encChar c =
     (let n = of_char c :: nat in
      if n = 0x22 then [CHR 0x5C, CHR 0x22]
      else if n = 0x5C then [CHR 0x5C, CHR 0x5C]
      else if n = 0x08 then [CHR 0x5C, CHR ''b'']
      else if n = 0x0C then [CHR 0x5C, CHR ''f'']
      else if n = 0x0A then [CHR 0x5C, CHR ''n'']
      else if n = 0x0D then [CHR 0x5C, CHR ''r'']
      else if n = 0x09 then [CHR 0x5C, CHR ''t'']
      else if n < 0x20 \<or> n = 0x3C \<or> n = 0x3E \<or> n = 0x26 then
        [CHR 0x5C, CHR ''u'', CHR ''0'', CHR ''0'', hexDigit (n div 16), hexDigit (n mod 16)]
      else [c])"

definition quoteString :: "string \<Rightarrow> string" where
  "quoteString s = CHR 0x22 # concat (map encChar s) @ [CHR 0x22]"

fun commaSep :: "string list \<Rightarrow> string" where
  "commaSep [] = []"
| "commaSep [x] = x"
| "commaSep (x # y # zs) = x @ CHR '','' # commaSep (y # zs)"

fun jsonEncode :: "strconv \<Rightarrow> goval \<Rightarrow> string" where
  "jsonEncode F GNil = ''null''"
| "jsonEncode F (GBool b) = (if b then ''true'' else ''false'')"
| "jsonEncode F (GNum x) = FormatFloat F x"
| "jsonEncode F (GStr s) = quoteString s"
| "jsonEncode F (GList vs) = CHR ''['' # commaSep (map (jsonEncode F) vs) @ '']''"
| "jsonEncode F (GMap m) =
     CHR ''{'' #
     commaSep (map snd (sort_key fst
       (map (\<lambda>(k, v). (k, quoteString k @ CHR '':'' # jsonEncode F v)) m))) @ ''}''"

definition jsonMarshal :: "strconv \<Rightarrow> goval \<Rightarrow> string option" where
  "jsonMarshal F v = Some (jsonEncode F v)"

definition utf8 :: "nat \<Rightarrow> string" where
  "utf8 n =
     (if n < 0x80 then [char_of n]
      else if n < 0x800 then [char_of (0xC0 + n div 64), char_of (0x80 + n mod 64)]
      else [char_of (0xE0 + n div 4096), char_of (0x80 + n div 64 mod 64),
            char_of (0x80 + n mod 64)])"

definition unescape :: "char \<Rightarrow> char option" where
  "unescape e =
     (if e = CHR 0x22 \<or> e = CHR 0x5C \<or> e = CHR ''/'' then Some e
      else if e = CHR ''b'' then Some (CHR 0x08)
      else if e = CHR ''f'' then Some (CHR 0x0C)
      else if e = CHR ''n'' then Some (CHR 0x0A)
      else if e = CHR ''r'' then Some (CHR 0x0D)
      else if e = CHR ''t'' then Some (CHR 0x09)
      else None)"

fun parseString :: "string \<Rightarrow> (string \<times> string) option" where
  "parseString [] = None"
| "parseString (c # cs) =
     (if c = CHR 0x22 then Some ([], cs)
      else if c = CHR 0x5C then
        (case cs of
           [] \<Rightarrow> None
         | e # es \<Rightarrow>
             if e = CHR ''u'' then
               (case es of
                  a # b # x # y # rest \<Rightarrow>
                    (case (hexVal a, hexVal b, hexVal x, hexVal y) of
                       (Some h3, Some h2, Some h1, Some h0) \<Rightarrow>
                         let n = ((h3 * 16 + h2) * 16 + h1) * 16 + h0 in
                         if 0xD800 \<le> n \<and> n < 0xE000 then None
                         else map_option (\<lambda>(s, r). (utf8 n @ s, r)) (parseString rest)
                     | _ \<Rightarrow> None)
                | _ \<Rightarrow> None)
             else
               (case unescape e of
                  None \<Rightarrow> None
                | Some ch \<Rightarrow> map_option (\<lambda>(s, r). (ch # s, r)) (parseString es)))
      else if of_char c < (0x20 :: nat) then None
      else map_option (\<lambda>(s, r). (c # s, r)) (parseString cs))"

definition skipSpace :: "string \<Rightarrow> string" where
  "skipSpace s = dropWhile isSpace s"

fun parseValue :: "strconv \<Rightarrow> nat \<Rightarrow> string \<Rightarrow> (goval \<times> string) option"
  and parseElems :: "strconv \<Rightarrow> nat \<Rightarrow> string \<Rightarrow> (goval list \<times> string) option"
  and parseMembers :: "strconv \<Rightarrow> nat \<Rightarrow> gomap \<Rightarrow> string \<Rightarrow> (gomap \<times> string) option"
where
  "parseValue F 0 s = None"
| "parseValue F (Suc n) s =
     (case skipSpace s of
        [] \<Rightarrow> None
      | c # cs \<Rightarrow>
          if c = CHR ''{'' then
            (case skipSpace cs of
               [] \<Rightarrow> None
             | c' # cs' \<Rightarrow>
                 if c' = CHR ''}'' then Some (GMap [], cs')
                 else map_option (\<lambda>(m, r). (GMap m, r)) (parseMembers F n [] (c' # cs')))
          else if c = CHR ''['' then
            (case skipSpace cs of
               [] \<Rightarrow> None
             | c' # cs' \<Rightarrow>
                 if c' = CHR '']'' then Some (GList [], cs')
                 else map_option (\<lambda>(vs, r). (GList vs, r)) (parseElems F n (c' # cs')))
          else if c = CHR 0x22 then map_option (\<lambda>(x, r). (GStr x, r)) (parseString cs)
          else if take 4 (c # cs) = ''null'' then Some (GNil, drop 4 (c # cs))
          else if take 4 (c # cs) = ''true'' then Some (GBool True, drop 4 (c # cs))
          else if take 5 (c # cs) = ''false'' then Some (GBool False, drop 5 (c # cs))
          else
            (let tok = takeWhile isNumChar (c # cs); rest = dropWhile isNumChar (c # cs)
             in if tok = [] then None
                else map_option (\<lambda>x. (GNum x, rest)) (ParseFloat F tok)))"
| "parseElems F 0 s = None"
| "parseElems F (Suc n) s =
     (case parseValue F n s of
        None \<Rightarrow> None
      | Some (v, r) \<Rightarrow>
          (case skipSpace r of
             [] \<Rightarrow> None
           | c # cs \<Rightarrow>
               if c = CHR '']'' then Some ([v], cs)
               else if c = CHR '','' then
                 map_option (\<lambda>(vs, r'). (v # vs, r')) (parseElems F n cs)
               else None))"
| "parseMembers F 0 acc s = None"
| "parseMembers F (Suc n) acc s =
     (case skipSpace s of
        [] \<Rightarrow> None
      | c # cs \<Rightarrow>
          if c \<noteq> CHR 0x22 then None
          else
            (case parseString cs of
               None \<Rightarrow> None
             | Some (k, r) \<Rightarrow>
                 (case skipSpace r of
                    [] \<Rightarrow> None
                  | c1 # r1 \<Rightarrow>
                      if c1 \<noteq> CHR '':'' then None
                      else
                        (case parseValue F n r1 of
                           None \<Rightarrow> None
                         | Some (v, r2) \<Rightarrow>
                             let acc' = AList.update k v acc in
                             (case skipSpace r2 of
                                [] \<Rightarrow> None
                              | c2 # r3 \<Rightarrow>
                                  if c2 = CHR ''}'' then Some (acc', r3)
                                  else if c2 = CHR '','' then parseMembers F n acc' r3
                                  else None)))))"

definition jsonUnmarshal :: "strconv \<Rightarrow> string \<Rightarrow> goval option" where
  "jsonUnmarshal F s =
     (case parseValue F (Suc (length s)) s of
        None \<Rightarrow> None
      | Some (v, r) \<Rightarrow> if skipSpace r = [] then Some v else None)"

text \<open>
  A value is representable when it is the list form of a value of \<^verbatim>\<open>encoding/json\<close>:
  a map lists each of its keys once, in any order (a Go map has no order, and the decoder
  above lists the keys as the text has them), and a number is one that \<^verbatim>\<open>strconv\<close>
  writes as a number token and reads back.
\<close>

fun representable :: "strconv \<Rightarrow> goval \<Rightarrow> bool" where
  "representable F GNil = True"
| "representable F (GBool b) = True"
| "representable F (GNum x) =
     (FormatFloat F x \<noteq> [] \<and> list_all isNumChar (FormatFloat F x)
      \<and> ParseFloat F (FormatFloat F x) = Some x)"
| "representable F (GStr s) = True"
| "representable F (GList vs) = list_all (representable F) vs"
| "representable F (GMap m) =
     (distinct (map fst m) \<and> list_all (\<lambda>(k, v). representable F v) m)"

text \<open>
  The same value with the keys of every map, at every depth, listed in increasing order:
  the one list form of a Go map that does not depend on the order of its entries.
\<close>

fun inKeyOrder :: "goval \<Rightarrow> goval" where
  "inKeyOrder (GList vs) = GList (map inKeyOrder vs)"
| "inKeyOrder (GMap m) = GMap (sort_key fst (map (\<lambda>(k, v). (k, inKeyOrder v)) m))"
| "inKeyOrder v = v"

text \<open>A representable value that lists the keys of every map in increasing order.\<close>

fun canonical :: "strconv \<Rightarrow> goval \<Rightarrow> bool" where
  "canonical F GNil = True"
| "canonical F (GBool b) = True"
| "canonical F (GNum x) =
     (FormatFloat F x \<noteq> [] \<and> list_all isNumChar (FormatFloat F x)
      \<and> ParseFloat F (FormatFloat F x) = Some x)"
| "canonical F (GStr s) = True"
| "canonical F (GList vs) = list_all (canonical F) vs"
| "canonical F (GMap m) =
     (sorted (map fst m) \<and> distinct (map fst m) \<and> list_all (\<lambda>(k, v). canonical F v) m)"

text \<open>A text that follows a number: the end, or a character that no number has.\<close>

definition delimited :: "string \<Rightarrow> bool" where
  "delimited rest = (rest = [] \<or> \<not> isNumChar (hd rest))"

section \<open>A sample environment\<close>

text \<open>
  For the concrete runs below: \<open>jsonTable\<close> pairs a few JSON texts with the values
  \<^verbatim>\<open>encoding/json\<close> decodes them into (and encodes back, keys sorted, struct fields in
  declaration order); the sample decoder and encoder know these documents only, and the
  sample formatter nil and the booleans.  The sample validator implements the
  \<^verbatim>\<open>required\<close> keyword, and the sample remote function answers by the request it is
  sent; a request it does not know is a transport failure.
\<close>

definition jsonTable :: "(string \<times> goval) list" where
  \<open>jsonTable =
     [(''{}'', GMap []),
      (''{"a":1}'', GMap [(''a'', GNum 1)]),
      (''{"a":2}'', GMap [(''a'', GNum 2)]),
      (''{"a":1,"b":{"x":1}}'', GMap [(''a'', GNum 1), (''b'', GMap [(''x'', GNum 1)])]),
      (''{"b":{"y":2}}'', GMap [(''b'', GMap [(''y'', GNum 2)])]),
      (''{"k":"v"}'', GMap [(''k'', GStr ''v'')]),
      (''{"action":"schema","args":null}'',
         GMap [(''action'', GStr ''schema''), (''args'', GNil)]),
      (''{"action":"create","args":{"a":1}}'',
         GMap [(''action'', GStr ''create''), (''args'', GMap [(''a'', GNum 1)])]),
      (''{"action":"read","args":{"a":1}}'',
         GMap [(''action'', GStr ''read''), (''args'', GMap [(''a'', GNum 1)])]),
      (''{"action":"delete","args":{"a":1}}'',
         GMap [(''action'', GStr ''delete''), (''args'', GMap [(''a'', GNum 1)])]),
      (''{"action":"delete","args":{"a":2}}'',
         GMap [(''action'', GStr ''delete''), (''args'', GMap [(''a'', GNum 2)])]),
      (''{"action":"delete","args":{"k":"v"}}'',
         GMap [(''action'', GStr ''delete''), (''args'', GMap [(''k'', GStr ''v'')])]),
      (''{"id":""}'', GMap [(''id'', GStr [])]),
      (''{"action":"update","args":{"a":1}}'',
         GMap [(''action'', GStr ''update''), (''args'', GMap [(''a'', GNum 1)])]),
      (''{"action":"diff","args":{"a":2},"state":{"a":1}}'',
         GMap [(''action'', GStr ''diff''), (''args'', GMap [(''a'', GNum 2)]),
               (''state'', GMap [(''a'', GNum 1)])]),
      (''{"reason":"type changed","replace":true}'',
         GMap [(''reason'', GStr ''type changed''), (''replace'', GBool True)]),
      (''{"id":"abc","result":{}}'', GMap [(''id'', GStr ''abc''), (''result'', GMap [])]),
      (''{"result":{"id":"r-1"}}'', GMap [(''result'', GMap [(''id'', GStr ''r-1'')])]),
      (''{"result":{"response":{"required":["never"]}}}'',
         GMap [(''result'', GMap [(''response'', GMap [(''required'', GList [GStr ''never''])])])])]\<close>

definition replyTable :: "(string \<times> reply) list" where
  \<open>replyTable =
     [(''{"action":"schema","args":null}'',
         Inr \<lparr>FunctionError = None,
              Payload = ''{"result":{"response":{"required":["never"]}}}''\<rparr>),
      (''{"action":"create","args":{"a":1}}'',
         Inr \<lparr>FunctionError = None, Payload = ''{"id":"abc","result":{}}''\<rparr>),
      (''{"action":"read","args":{"a":1}}'',
         Inr \<lparr>FunctionError = None, Payload = ''{"id":"abc","result":{}}''\<rparr>),
      (''{"action":"delete","args":{"a":1}}'',
         Inr \<lparr>FunctionError = None, Payload = ''{"result":{"id":"r-1"}}''\<rparr>),
      (''{"action":"delete","args":{"k":"v"}}'',
         Inr \<lparr>FunctionError = None, Payload = ''{"id":""}''\<rparr>),
      (''{"action":"diff","args":{"a":2},"state":{"a":1}}'',
         Inr \<lparr>FunctionError = None, Payload = ''{"reason":"type changed","replace":true}''\<rparr>)]\<close>

definition sampleValidate :: "gomap \<Rightarrow> gomap option \<Rightarrow> string + string list" where
  "sampleValidate sch doc =
     Inr (concat (map (\<lambda>n. case n of
                             GStr k \<Rightarrow> if lookup doc k = None then [k @ '' is required''] else []
                           | _ \<Rightarrow> [])
                      (case map_of sch ''required'' of Some (GList ns) \<Rightarrow> ns | _ \<Rightarrow> [])))"

definition sampleSchemas :: "gomap option \<Rightarrow> lambdaSchemaResponse" where
  "sampleSchemas r =
     \<lparr>Request = (case lookup r ''request'' of Some (GMap m) \<Rightarrow> Some m | _ \<Rightarrow> None),
      Response = (case lookup r ''response'' of Some (GMap m) \<Rightarrow> Some m | _ \<Rightarrow> None)\<rparr>"

definition sampleEnv :: env where
  "sampleEnv =
     \<lparr>Unmarshal = map_of jsonTable,
      Marshal = map_of (map (\<lambda>(s, v). (v, s)) jsonTable),
      Sprint = (\<lambda>v. case v of
                       GNil \<Rightarrow> ''<nil>''
                     | GBool b \<Rightarrow> (if b then ''true'' else ''false'')
                     | _ \<Rightarrow> []),
      AsSchemas = sampleSchemas,
      Validate = sampleValidate,
      Invoke = (\<lambda>w name bytes. case map_of replyTable bytes of
                                    Some r \<Rightarrow> r
                                  | None \<Rightarrow> Inl ''ResourceNotFoundException''),
      TF_LOG = [],
      TF_IN_AUTOMATION = []\<rparr>"

text \<open>The remote function out of reach, and out of reach for the first call only.\<close>

definition downEnv :: env where
  "downEnv = sampleEnv\<lparr>Invoke := (\<lambda>w name bytes. Inl ''timeout'')\<rparr>"

definition flakyEnv :: env where
  "flakyEnv =
     sampleEnv\<lparr>Invoke := (\<lambda>w name bytes. if w = [] then Inl ''timeout''
                                            else Invoke sampleEnv w name bytes)\<rparr>"

definition sampleClient :: remoteClient where
  "sampleClient = \<lparr>LambdaName = ''handler'', once = False, schemas = None, schemaErr = None\<rparr>"

definition sampleData :: ResourceData where
  \<open>sampleData =
     \<lparr>Id = ''r-0'', attr_args = GList [GStr ''{"a":1}''], attr_result = GMap [],
      attr_store = GStr [], IsNewResource = False\<rparr>\<close>

text \<open>A planned change of \<^verbatim>\<open>args\<close> on an existing resource, as the list schema gives it.\<close>

definition sampleDiff :: ResourceDiff where
  \<open>sampleDiff =
     \<lparr>new_args = GList [GStr ''{"a":2}''], old_args = GList [GStr ''{"a":1}''],
      diff_store = GStr [], forcedNew = False\<rparr>\<close>

text \<open>
  The sample environment with the model of \<^verbatim>\<open>encoding/json\<close> for its decoder and encoder,
  and a sample \<^verbatim>\<open>strconv\<close> that knows the numbers 0, 1 and 2.
\<close>

definition sampleStrconv :: strconv where
  "sampleStrconv =
     \<lparr>FormatFloat = (\<lambda>x. if x = 0 then ''0'' else if x = 1 then ''1''
                           else if x = 2 then ''2'' else []),
      ParseFloat = map_of [(''0'', 0), (''1'', 1), (''2'', 2)]\<rparr>"

definition jsonEnv :: env where
  "jsonEnv =
     sampleEnv\<lparr>Marshal := jsonMarshal sampleStrconv, Unmarshal := jsonUnmarshal sampleStrconv\<rparr>"

section \<open>Argument Merger: properties\<close>

lemma deepMerge_lookup:
  "distinct (map fst src) \<Longrightarrow>
   map_of (deepMerge dst src) k =
     (case map_of src k of
        None \<Rightarrow> map_of dst k
      | Some v \<Rightarrow>
          (case v of
             GMap vmap \<Rightarrow>
               (case map_of dst k of
                  Some (GMap dmap) \<Rightarrow> Some (GMap (deepMerge dmap vmap))
                | _ \<Rightarrow> Some v)
           | _ \<Rightarrow> Some v))"
proof (induction src arbitrary: dst)
  case Nil
  then show ?case by simp
next
  case (Cons a src)
  obtain k' v' where a: "a = (k', v')" by (cases a)
  from Cons.prems a have nk: "map_of src k' = None" and d: "distinct (map fst src)"
    by (auto simp: map_of_eq_None_iff)
  show ?case
    using Cons.IH [OF d] nk
    by (auto simp: a update_conv' split: goval.splits option.splits)
qed

lemma parseArgsLoop_append:
  "parseArgsLoop E final (arr @ brr) = parseArgsLoop E (parseArgsLoop E final arr) brr"
  by (induction arr arbitrary: final) (auto split: goval.splits prod.splits option.splits)

lemma parseArgsLoop_fold:
  "list_all2 (\<lambda>s m. unmarshalMap E s None = (None, Some m)) ss ms \<Longrightarrow>
   parseArgsLoop E final (map GStr ss) = foldl deepMerge final ms"
  by (induction ss ms arbitrary: final rule: list_all2_induct) simp_all

lemma parseArgsJSON_fold:
  "list_all2 (\<lambda>s m. unmarshalMap E s None = (None, Some m)) ss ms \<Longrightarrow>
   parseArgsJSON E (GList (map GStr ss)) = Inr (Some (foldl deepMerge [] ms))"
  by (simp add: parseArgsJSON_def parseArgsLoop_fold)

lemma parseArgsJSON_example:
  assumes "Unmarshal E s1 = Some (GMap [(''a'', GNum 1), (''b'', GMap [(''x'', GNum 1)])])"
    and "Unmarshal E s2 = Some (GMap [(''b'', GMap [(''y'', GNum 2)])])"
  shows "parseArgsJSON E (GList [GStr s1, GStr s2]) =
           Inr (Some [(''a'', GNum 1), (''b'', GMap [(''x'', GNum 1), (''y'', GNum 2)])])"
  using assms by (simp add: parseArgsJSON_def unmarshalMap_def)

text \<open>
  C5.  The merge of a list of fragments that decode to the objects \<open>ms\<close> is the left fold
  of \<^verbatim>\<open>deepMerge\<close> over \<open>ms\<close>, from the empty object: the fragments are merged in from
  left to right, and the result is a function of the fragments.  Merging \<open>src\<close> (an
  object, its keys distinct) into \<open>dst\<close> leaves the keys that \<open>src\<close> does not have as
  they are; at a key of \<open>src\<close>, two objects are merged recursively and any other value
  is replaced by the one of \<open>src\<close>.  The fragments \<^verbatim>\<open>{"a":1,"b":{"x":1}}\<close> and
  \<^verbatim>\<open>{"b":{"y":2}}\<close> give \<^verbatim>\<open>{"a":1,"b":{"x":1,"y":2}}\<close>.
\<close>

theorem merge_left_to_right_recursive:
  "parseArgsJSON E (GList []) = Inr (Some [])
   \<and> (list_all2 (\<lambda>s m. unmarshalMap E s None = (None, Some m)) ss ms \<longrightarrow>
        parseArgsJSON E (GList (map GStr ss)) = Inr (Some (foldl deepMerge [] ms)))
   \<and> (distinct (map fst src) \<longrightarrow>
        map_of (deepMerge dst src) k =
          (case map_of src k of
             None \<Rightarrow> map_of dst k
           | Some v \<Rightarrow>
               (case v of
                  GMap vmap \<Rightarrow>
                    (case map_of dst k of
                       Some (GMap dmap) \<Rightarrow> Some (GMap (deepMerge dmap vmap))
                     | _ \<Rightarrow> Some v)
                | _ \<Rightarrow> Some v)))
   \<and> (Unmarshal E s1 = Some (GMap [(''a'', GNum 1), (''b'', GMap [(''x'', GNum 1)])]) \<longrightarrow>
      Unmarshal E s2 = Some (GMap [(''b'', GMap [(''y'', GNum 2)])]) \<longrightarrow>
        parseArgsJSON E (GList [GStr s1, GStr s2]) =
          Inr (Some [(''a'', GNum 1), (''b'', GMap [(''x'', GNum 1), (''y'', GNum 2)])]))"
proof (intro conjI impI)
  show "parseArgsJSON E (GList []) = Inr (Some [])"
    by (simp add: parseArgsJSON_def)
next
  assume "list_all2 (\<lambda>s m. unmarshalMap E s None = (None, Some m)) ss ms"
  then show "parseArgsJSON E (GList (map GStr ss)) = Inr (Some (foldl deepMerge [] ms))"
    by (rule parseArgsJSON_fold)
next
  assume "distinct (map fst src)"
  then show "map_of (deepMerge dst src) k =
          (case map_of src k of
             None \<Rightarrow> map_of dst k
           | Some v \<Rightarrow>
               (case v of
                  GMap vmap \<Rightarrow>
                    (case map_of dst k of
                       Some (GMap dmap) \<Rightarrow> Some (GMap (deepMerge dmap vmap))
                     | _ \<Rightarrow> Some v)
                | _ \<Rightarrow> Some v))"
    by (rule deepMerge_lookup)
next
  assume "Unmarshal E s1 = Some (GMap [(''a'', GNum 1), (''b'', GMap [(''x'', GNum 1)])])"
    and "Unmarshal E s2 = Some (GMap [(''b'', GMap [(''y'', GNum 2)])])"
  then show "parseArgsJSON E (GList [GStr s1, GStr s2]) =
          Inr (Some [(''a'', GNum 1), (''b'', GMap [(''x'', GNum 1), (''y'', GNum 2)])])"
    by (rule parseArgsJSON_example)
qed

theorem merge_left_to_right_recursive_witness:
  \<open>list_all2 (\<lambda>s m. unmarshalMap sampleEnv s None = (None, Some m))
     [''{"a":1,"b":{"x":1}}'', ''{"b":{"y":2}}'']
     [[(''a'', GNum 1), (''b'', GMap [(''x'', GNum 1)])], [(''b'', GMap [(''y'', GNum 2)])]]
   \<and> parseArgsJSON sampleEnv (GList [GStr ''{"a":1,"b":{"x":1}}'', GStr ''{"b":{"y":2}}'']) =
        Inr (Some [(''a'', GNum 1), (''b'', GMap [(''x'', GNum 1), (''y'', GNum 2)])])
   \<and> foldl deepMerge []
        [[(''a'', GNum 1), (''b'', GMap [(''x'', GNum 1)])], [(''b'', GMap [(''y'', GNum 2)])]] =
        [(''a'', GNum 1), (''b'', GMap [(''x'', GNum 1), (''y'', GNum 2)])]
   \<and> distinct (map fst [(''b'', GMap [(''y'', GNum 2)])])
   \<and> map_of (deepMerge [(''a'', GNum 1), (''b'', GMap [(''x'', GNum 1)])]
                [(''b'', GMap [(''y'', GNum 2)])]) ''b'' =
        Some (GMap [(''x'', GNum 1), (''y'', GNum 2)])\<close>
proof -
  have u1: \<open>Unmarshal sampleEnv ''{"a":1,"b":{"x":1}}'' =
              Some (GMap [(''a'', GNum 1), (''b'', GMap [(''x'', GNum 1)])])\<close>
    by code_simp
  have u2: \<open>Unmarshal sampleEnv ''{"b":{"y":2}}'' = Some (GMap [(''b'', GMap [(''y'', GNum 2)])])\<close>
    by code_simp
  have h: \<open>list_all2 (\<lambda>s m. unmarshalMap sampleEnv s None = (None, Some m))
     [''{"a":1,"b":{"x":1}}'', ''{"b":{"y":2}}'']
     [[(''a'', GNum 1), (''b'', GMap [(''x'', GNum 1)])], [(''b'', GMap [(''y'', GNum 2)])]]\<close>
    by (simp add: unmarshalMap_def u1 u2)
  have d: \<open>distinct (map fst [(''b'', GMap [(''y'', GNum 2)])])\<close>
    by simp
  have f: \<open>foldl deepMerge []
        [[(''a'', GNum 1), (''b'', GMap [(''x'', GNum 1)])], [(''b'', GMap [(''y'', GNum 2)])]] =
        [(''a'', GNum 1), (''b'', GMap [(''x'', GNum 1), (''y'', GNum 2)])]\<close>
    by simp
  note inst = merge_left_to_right_recursive
        [where E = sampleEnv
           and ss = \<open>[''{"a":1,"b":{"x":1}}'', ''{"b":{"y":2}}'']\<close>
           and ms = \<open>[[(''a'', GNum 1), (''b'', GMap [(''x'', GNum 1)])],
                       [(''b'', GMap [(''y'', GNum 2)])]]\<close>
           and src = \<open>[(''b'', GMap [(''y'', GNum 2)])]\<close>
           and dst = \<open>[(''a'', GNum 1), (''b'', GMap [(''x'', GNum 1)])]\<close>
           and k = \<open>''b''\<close> and ?s1.0 = \<open>''{"a":1,"b":{"x":1}}''\<close>
           and ?s2.0 = \<open>''{"b":{"y":2}}''\<close>]
  have p: \<open>parseArgsJSON sampleEnv
             (GList [GStr ''{"a":1,"b":{"x":1}}'', GStr ''{"b":{"y":2}}'']) =
           Inr (Some [(''a'', GNum 1), (''b'', GMap [(''x'', GNum 1), (''y'', GNum 2)])])\<close>
    using inst u1 u2 by blast
  have m: \<open>map_of (deepMerge [(''a'', GNum 1), (''b'', GMap [(''x'', GNum 1)])]
                [(''b'', GMap [(''y'', GNum 2)])]) ''b'' =
        Some (GMap [(''x'', GNum 1), (''y'', GNum 2)])\<close>
    using inst d by simp
  show ?thesis
    using h p f d m by blast
qed

section \<open>Remote invocations: what an operation leaves in the world\<close>

lemma invokeLambda_cases:
  "invokeLambda E c w p = (x, w') \<Longrightarrow>
     (w' = w \<and> x = Inl MarshalError) \<or> (\<exists>rep. w' = w @ [(p, rep)] \<and> readReply E rep = x)"
  by (auto simp: invokeLambda_def Let_def split: option.splits)

lemma readReply_fails_iff: "invocationFails E rep \<longleftrightarrow> (\<exists>e. readReply E rep = Inl e)"
  by (auto simp: readReply_def invocationFails_def Let_def
           split: sum.splits prod.splits option.splits)

lemma getSchemas_world:
  "getSchemas E c w = ((s, e), c1, w1) \<Longrightarrow>
     w1 = w \<or> (\<exists>rep. w1 = w @ [(schemaPayload, rep)]
                    \<and> (\<forall>err. readReply E rep = Inl err \<longrightarrow> e \<noteq> None))"
  by (auto simp: getSchemas_def Let_def schemaPayload_def
           split: if_splits sum.splits prod.splits dest!: invokeLambda_cases)

lemma schemaPayload_Action [simp]: "Action schemaPayload = ''schema''"
  by (simp add: schemaPayload_def)

section \<open>Read\<close>

text \<open>
  C7.  When the \<^verbatim>\<open>read\<close> invocation of a read operation succeeds and the response has an
  empty id, the operation returns no error and clears the id of the resource data, which
  leaves no persisted record (no id, result or store).  The response schema plays no part:
  the statement holds for every validator and every schema pair, and the sample run has a
  response schema that the reply violates.
\<close>

theorem read_empty_id_clears:
  assumes run: "resourceRemoteRead E c w d = (r, c', w', d')"
    and mem: "(p, rep) \<in> set (drop (length w) w')"
    and act: "Action p = ''read''"
    and rep: "readReply E rep = Inr res"
    and emp: "ID res = []"
  shows "r = None \<and> d' = d\<lparr>Id := []\<rparr> \<and> persisted d' = None"
  using assms unfolding resourceRemoteRead_def Let_def
  by (auto simp: persisted_def split: sum.splits prod.splits option.splits if_splits
           dest!: invokeLambda_cases getSchemas_world)

theorem read_empty_id_clears_witness:
  \<open>readReply sampleEnv (Inr \<lparr>FunctionError = None, Payload = ''{"id":"abc","result":{}}''\<rparr>) =
     Inr \<lparr>ID = [], Result = Some [], RStore = None, Replace = False, Reason = []\<rparr>
   \<and> Response (sampleSchemas
                 (Some [(''response'', GMap [(''required'', GList [GStr ''never''])])])) =
        Some [(''required'', GList [GStr ''never''])]
   \<and> validateWithSchema sampleEnv (Some [(''required'', GList [GStr ''never''])]) (Some [])
        ''response'' \<noteq> None
   \<and> Id sampleData = ''r-0''
   \<and> fst (resourceRemoteRead sampleEnv sampleClient [] sampleData) = None
   \<and> snd (snd (snd (resourceRemoteRead sampleEnv sampleClient [] sampleData))) =
        sampleData\<lparr>Id := []\<rparr>
   \<and> persisted (snd (snd (snd (resourceRemoteRead sampleEnv sampleClient [] sampleData)))) =
        None\<close>
proof -
  define R where "R = resourceRemoteRead sampleEnv sampleClient [] sampleData"
  have run: "resourceRemoteRead sampleEnv sampleClient [] sampleData =
               (fst R, fst (snd R), fst (snd (snd R)), snd (snd (snd R)))"
    by (simp add: R_def)
  have mem: \<open>(\<lparr>Action = ''read'', Args = Some [(''a'', GNum 1)], State = Some [],
                Store = Some [], Planning = False\<rparr>,
              Inr \<lparr>FunctionError = None, Payload = ''{"id":"abc","result":{}}''\<rparr>)
             \<in> set (drop (length ([] :: world)) (fst (snd (snd R))))\<close>
    unfolding R_def by code_simp
  have rep: \<open>readReply sampleEnv
               (Inr \<lparr>FunctionError = None, Payload = ''{"id":"abc","result":{}}''\<rparr>) =
             Inr \<lparr>ID = [], Result = Some [], RStore = None, Replace = False, Reason = []\<rparr>\<close>
    by code_simp
  have sch: \<open>Response (sampleSchemas
                 (Some [(''response'', GMap [(''required'', GList [GStr ''never''])])])) =
        Some [(''required'', GList [GStr ''never''])]
   \<and> validateWithSchema sampleEnv (Some [(''required'', GList [GStr ''never''])]) (Some [])
        ''response'' \<noteq> None
   \<and> Id sampleData = ''r-0''\<close>
    by code_simp
  show ?thesis
    using read_empty_id_clears [OF run mem _ rep] rep sch
    by (simp add: R_def persisted_def)
qed

section \<open>Create\<close>

text \<open>
  C8.  When the \<^verbatim>\<open>create\<close> invocation of a create operation yields a response with an
  empty id, the operation fails with the missing-id error and leaves the resource data as
  it was: no id is assigned, no result and no store are written, and a resource that had
  no id before has no persisted record afterwards.
\<close>

theorem create_empty_id_fails:
  assumes run: "resourceRemoteCreate E c w d = (r, c', w', d')"
    and mem: "(p, rep) \<in> set (drop (length w) w')"
    and act: "Action p = ''create''"
    and rep: "readReply E rep = Inr res"
    and emp: "ID res = []"
  shows "r = Some (MissingId ''create'') \<and> d' = d \<and> (Id d = [] \<longrightarrow> persisted d' = None)"
  using assms unfolding resourceRemoteCreate_def Let_def
  by (auto simp: persisted_def split: sum.splits prod.splits option.splits if_splits
           dest!: invokeLambda_cases getSchemas_world)

theorem create_empty_id_fails_witness:
  \<open>readReply sampleEnv (Inr \<lparr>FunctionError = None, Payload = ''{"id":"abc","result":{}}''\<rparr>) =
     Inr \<lparr>ID = [], Result = Some [], RStore = None, Replace = False, Reason = []\<rparr>
   \<and> fst (resourceRemoteCreate sampleEnv sampleClient [] (sampleData\<lparr>Id := []\<rparr>)) =
        Some (MissingId ''create'')
   \<and> snd (snd (snd (resourceRemoteCreate sampleEnv sampleClient [] (sampleData\<lparr>Id := []\<rparr>)))) =
        sampleData\<lparr>Id := []\<rparr>
   \<and> persisted (snd (snd (snd (resourceRemoteCreate sampleEnv sampleClient []
                                  (sampleData\<lparr>Id := []\<rparr>))))) = None\<close>
proof -
  define R where "R = resourceRemoteCreate sampleEnv sampleClient [] (sampleData\<lparr>Id := []\<rparr>)"
  have run: "resourceRemoteCreate sampleEnv sampleClient [] (sampleData\<lparr>Id := []\<rparr>) =
               (fst R, fst (snd R), fst (snd (snd R)), snd (snd (snd R)))"
    by (simp add: R_def)
  have mem: \<open>(\<lparr>Action = ''create'', Args = Some [(''a'', GNum 1)], State = Some [],
                Store = Some [], Planning = False\<rparr>,
              Inr \<lparr>FunctionError = None, Payload = ''{"id":"abc","result":{}}''\<rparr>)
             \<in> set (drop (length ([] :: world)) (fst (snd (snd R))))\<close>
    unfolding R_def by code_simp
  have rep: \<open>readReply sampleEnv
               (Inr \<lparr>FunctionError = None, Payload = ''{"id":"abc","result":{}}''\<rparr>) =
             Inr \<lparr>ID = [], Result = Some [], RStore = None, Replace = False, Reason = []\<rparr>\<close>
    by code_simp
  show ?thesis
    using create_empty_id_fails [OF run mem _ rep] rep
    by (simp add: R_def persisted_def)
qed

section \<open>Delete\<close>

lemma setStoreAsJSONString_Id: "setStoreAsJSONString E d s = (r, d') \<Longrightarrow> Id d' = Id d"
  by (auto simp: setStoreAsJSONString_def split: option.splits)



lemma hostDelete_without_id: "Id d = [] \<Longrightarrow> fst (snd (snd (hostDelete E c w d))) = w"
  by (simp add: hostDelete_def)



section \<open>Failures of the remote invocation\<close>

lemma lifecycle_failure_fatal:
  assumes run: "resourceRemote op E c w d = (r, c', w', d')"
    and mem: "(p, rep) \<in> set (drop (length w) w')"
    and fail: "invocationFails E rep"
  shows "r \<noteq> None \<and> d' = d"
proof (cases op)
  case Create
  then show ?thesis
    using assms unfolding readReply_fails_iff resourceRemote_def resourceRemoteCreate_def Let_def
    by (auto split: sum.splits prod.splits option.splits if_splits
             dest!: invokeLambda_cases getSchemas_world)
next
  case Read
  then show ?thesis
    using assms unfolding readReply_fails_iff resourceRemote_def resourceRemoteRead_def Let_def
    by (auto split: sum.splits prod.splits option.splits if_splits
             dest!: invokeLambda_cases getSchemas_world)
next
  case Update
  then show ?thesis
    using assms unfolding readReply_fails_iff resourceRemote_def resourceRemoteUpdate_def Let_def
    by (auto split: sum.splits prod.splits option.splits if_splits
             dest!: invokeLambda_cases getSchemas_world)
next
  case Delete
  then show ?thesis
    using assms unfolding readReply_fails_iff resourceRemote_def resourceRemoteDelete_def Let_def
    by (auto split: sum.splits prod.splits option.splits if_splits
             dest!: invokeLambda_cases getSchemas_world)
qed

lemma diff_failure_fatal:
  assumes run: "CustomizeDiff E c w d = (r, w', d')"
    and mem: "(p, rep) \<in> set (drop (length w) w')"
    and fail: "invocationFails E rep"
  shows "r \<noteq> None \<and> d' = d"
  using assms unfolding readReply_fails_iff CustomizeDiff_def Let_def
  by (auto split: sum.splits prod.splits option.splits if_splits goval.splits
           dest!: invokeLambda_cases)

lemma invocationFails_kinds:
  "invocationFails E (Inl err)"
  "FunctionError resp \<noteq> None \<Longrightarrow> invocationFails E (Inr resp)"
  "Unmarshal E (Payload resp) = None \<Longrightarrow> invocationFails E (Inr resp)"
  by (simp_all add: invocationFails_def unmarshalMap_def)

text \<open>
  C10.  A transport error, a set function error indicator and a payload that does not
  decode are failures of the invocation, and \<^verbatim>\<open>invokeLambda\<close> returns an error and no
  response for each.  If any invocation made during a create, read, update or delete
  operation fails (the \<^verbatim>\<open>schema\<close> fetch included), the operation returns an error and
  the resource data are as before; if the \<^verbatim>\<open>diff\<close> invocation of a diff check fails, the
  check returns an error and marks nothing for replacement.
\<close>

theorem invocation_failure_is_fatal:
  "invocationFails E (Inl err)
   \<and> (FunctionError resp \<noteq> None \<longrightarrow> invocationFails E (Inr resp))
   \<and> (Unmarshal E (Payload resp) = None \<longrightarrow> invocationFails E (Inr resp))
   \<and> (invocationFails E rep \<longrightarrow> (\<exists>e. readReply E rep = Inl e))
   \<and> (resourceRemote op E c w d = (r, c', w', d') \<and> (p, rep) \<in> set (drop (length w) w')
        \<and> invocationFails E rep \<longrightarrow> r \<noteq> None \<and> d' = d)
   \<and> (CustomizeDiff E c wd df = (rd, wd', df') \<and> (pd, repd) \<in> set (drop (length wd) wd')
        \<and> invocationFails E repd \<longrightarrow> rd \<noteq> None \<and> df' = df)"
  using invocationFails_kinds lifecycle_failure_fatal [of op E c w d r c' w' d' p rep]
    diff_failure_fatal [of E c wd df rd wd' df' pd repd] readReply_fails_iff [of E rep]
  by blast

theorem invocation_failure_is_fatal_witness:
  \<open>invocationFails downEnv (Inl ''timeout'')
   \<and> invocationFails downEnv (Inr \<lparr>FunctionError = Some ''Unhandled'', Payload = ''{}''\<rparr>)
   \<and> invocationFails downEnv (Inr \<lparr>FunctionError = None, Payload = ''<html>''\<rparr>)
   \<and> readReply downEnv (Inl ''timeout'') = Inl (TransportError ''timeout'')
   \<and> fst (resourceRemote Update downEnv sampleClient [] sampleData) =
        Some (TransportError ''timeout'')
   \<and> snd (snd (snd (resourceRemote Update downEnv sampleClient [] sampleData))) = sampleData
   \<and> fst (CustomizeDiff downEnv sampleClient [] (sampleDiff\<lparr>old_args := GStr ''{"a":1}''\<rparr>)) =
        Some (TransportError ''timeout'')
   \<and> snd (snd (CustomizeDiff downEnv sampleClient [] (sampleDiff\<lparr>old_args := GStr ''{"a":1}''\<rparr>))) =
        sampleDiff\<lparr>old_args := GStr ''{"a":1}''\<rparr>\<close>
proof -
  define R where "R = resourceRemote Update downEnv sampleClient [] sampleData"
  define D where \<open>D = CustomizeDiff downEnv sampleClient [] (sampleDiff\<lparr>old_args := GStr ''{"a":1}''\<rparr>)\<close>
  have run: "resourceRemote Update downEnv sampleClient [] sampleData =
               (fst R, fst (snd R), fst (snd (snd R)), snd (snd (snd R)))"
    by (simp add: R_def)
  have mem: \<open>(schemaPayload, Inl ''timeout'') \<in> set (drop (length ([] :: world)) (fst (snd (snd R))))\<close>
    unfolding R_def by code_simp
  have drun: \<open>CustomizeDiff downEnv sampleClient [] (sampleDiff\<lparr>old_args := GStr ''{"a":1}''\<rparr>) =
               (fst D, fst (snd D), snd (snd D))\<close>
    by (simp add: D_def)
  have dmem: \<open>(\<lparr>Action = ''diff'', Args = Some [(''a'', GNum 2)], State = Some [(''a'', GNum 1)],
                 Store = Some [], Planning = False\<rparr>, Inl ''timeout'')
              \<in> set (drop (length ([] :: world)) (fst (snd D)))\<close>
    unfolding D_def by code_simp
  have f2: \<open>FunctionError \<lparr>FunctionError = Some ''Unhandled'', Payload = ''{}''\<rparr> \<noteq> None\<close>
    by simp
  have f3: \<open>Unmarshal downEnv (Payload \<lparr>FunctionError = None, Payload = ''<html>''\<rparr>) = None\<close>
    by code_simp
  have vals: \<open>readReply downEnv (Inl ''timeout'') = Inl (TransportError ''timeout'')
     \<and> fst R = Some (TransportError ''timeout'') \<and> fst D = Some (TransportError ''timeout'')\<close>
    unfolding R_def D_def by code_simp
  have a: \<open>invocationFails downEnv (Inl ''timeout'')
     \<and> invocationFails downEnv (Inr \<lparr>FunctionError = Some ''Unhandled'', Payload = ''{}''\<rparr>)\<close>
    using invocation_failure_is_fatal
      [where E = downEnv and err = \<open>''timeout''\<close>
         and resp = \<open>\<lparr>FunctionError = Some ''Unhandled'', Payload = ''{}''\<rparr>\<close>] f2
    by blast
  have b: \<open>invocationFails downEnv (Inr \<lparr>FunctionError = None, Payload = ''<html>''\<rparr>)\<close>
    using invocation_failure_is_fatal
      [where E = downEnv and resp = \<open>\<lparr>FunctionError = None, Payload = ''<html>''\<rparr>\<close>] f3
    by blast
  have c: \<open>snd (snd (snd R)) = sampleData \<and> snd (snd D) = sampleDiff\<lparr>old_args := GStr ''{"a":1}''\<rparr>\<close>
    using invocation_failure_is_fatal
      [where E = downEnv and rep = \<open>Inl ''timeout''\<close> and op = Update and c = sampleClient
         and w = \<open>[]\<close> and d = sampleData and r = \<open>fst R\<close> and c' = \<open>fst (snd R)\<close>
         and w' = \<open>fst (snd (snd R))\<close> and d' = \<open>snd (snd (snd R))\<close> and p = schemaPayload
         and wd = \<open>[]\<close> and df = \<open>sampleDiff\<lparr>old_args := GStr ''{"a":1}''\<rparr>\<close>
         and rd = \<open>fst D\<close> and wd' = \<open>fst (snd D)\<close> and df' = \<open>snd (snd D)\<close>
         and repd = \<open>Inl ''timeout''\<close>
         and pd = \<open>\<lparr>Action = ''diff'', Args = Some [(''a'', GNum 2)],
                        State = Some [(''a'', GNum 1)], Store = Some [], Planning = False\<rparr>\<close>]
      run mem drun dmem a
    by blast
  show ?thesis
    using a b c vals by (simp add: R_def D_def)
qed

section \<open>Schema Cache: properties\<close>

lemma getSchemas_spent: "once c \<Longrightarrow> getSchemas E c w = ((schemas c, schemaErr c), c, w)"
  by (simp add: getSchemas_def)

lemma getSchemas_after:
  "getSchemas E c w = (r, c1, w1) \<Longrightarrow> once c1 \<and> r = (schemas c1, schemaErr c1)"
  by (auto simp: getSchemas_def Let_def split: if_splits sum.splits prod.splits)

lemma getSchemas_at_most_one_call:
  "getSchemas E c w = (r, c1, w1) \<Longrightarrow> w1 = w \<or> (\<exists>rep. w1 = w @ [(schemaPayload, rep)])"
  by (cases r) (auto dest: getSchemas_world)

lemma getSchemasCalls_spent:
  "once c \<Longrightarrow>
   getSchemasCalls E c w betweens =
     (replicate (length betweens) (schemas c, schemaErr c), c, w @ concat betweens)"
  by (induction betweens arbitrary: w) (simp_all add: getSchemas_spent)

text \<open>
  C4.  A \<^verbatim>\<open>getSchemas\<close> call invokes the remote function at most once, with the
  \<^verbatim>\<open>schema\<close> request, and not at all on a client whose fetch has been attempted.  After
  it, every \<^verbatim>\<open>getSchemas\<close> call on the client, in whatever world, returns the same pair
  of schemas and error, makes no call and leaves the client as it is; so does any sequence
  of such calls with other calls in between.  The first result may be an error: it is
  returned again and the fetch is not retried.
\<close>

theorem schema_fetch_attempted_once:
  assumes "getSchemas E c w = (r, c1, w1)"
  shows "(w1 = w \<or> (\<exists>rep. w1 = w @ [(schemaPayload, rep)]))
       \<and> (once c \<longrightarrow> w1 = w)
       \<and> getSchemas E c1 w2 = (r, c1, w2)
       \<and> getSchemasCalls E c1 w1 betweens =
            (replicate (length betweens) r, c1, w1 @ concat betweens)"
proof -
  from assms have a: "once c1" and b: "r = (schemas c1, schemaErr c1)"
    using getSchemas_after by blast+
  have "once c \<Longrightarrow> w1 = w" using assms by (simp add: getSchemas_spent)
  then show ?thesis
    using getSchemas_at_most_one_call [OF assms] a b
    by (simp add: getSchemas_spent getSchemasCalls_spent)
qed

theorem schema_fetch_attempted_once_witness:
  \<open>getSchemas flakyEnv sampleClient [] =
     ((None, Some (TransportError ''timeout'')),
      sampleClient\<lparr>once := True, schemaErr := Some (TransportError ''timeout'')\<rparr>,
      [(schemaPayload, Inl ''timeout'')])
   \<and> Invoke flakyEnv [(schemaPayload, Inl ''timeout'')] ''handler''
        ''{"action":"schema","args":null}'' =
       Inr \<lparr>FunctionError = None, Payload = ''{"result":{"response":{"required":["never"]}}}''\<rparr>
   \<and> once (sampleClient\<lparr>once := True, schemaErr := Some (TransportError ''timeout'')\<rparr>)
   \<and> getSchemas flakyEnv
        (sampleClient\<lparr>once := True, schemaErr := Some (TransportError ''timeout'')\<rparr>)
        [(schemaPayload, Inl ''timeout'')] =
       ((None, Some (TransportError ''timeout'')),
        sampleClient\<lparr>once := True, schemaErr := Some (TransportError ''timeout'')\<rparr>,
        [(schemaPayload, Inl ''timeout'')])
   \<and> getSchemasCalls flakyEnv
        (sampleClient\<lparr>once := True, schemaErr := Some (TransportError ''timeout'')\<rparr>)
        [(schemaPayload, Inl ''timeout'')] [[], [], []] =
       ([(None, Some (TransportError ''timeout'')), (None, Some (TransportError ''timeout'')),
         (None, Some (TransportError ''timeout''))],
        sampleClient\<lparr>once := True, schemaErr := Some (TransportError ''timeout'')\<rparr>,
        [(schemaPayload, Inl ''timeout'')])\<close>
proof -
  have run: \<open>getSchemas flakyEnv sampleClient [] =
     ((None, Some (TransportError ''timeout'')),
      sampleClient\<lparr>once := True, schemaErr := Some (TransportError ''timeout'')\<rparr>,
      [(schemaPayload, Inl ''timeout'')])\<close>
    by code_simp
  have again: \<open>Invoke flakyEnv [(schemaPayload, Inl ''timeout'')] ''handler''
        ''{"action":"schema","args":null}'' =
       Inr \<lparr>FunctionError = None, Payload = ''{"result":{"response":{"required":["never"]}}}''\<rparr>\<close>
    by code_simp
  have later: \<open>getSchemas flakyEnv
        (sampleClient\<lparr>once := True, schemaErr := Some (TransportError ''timeout'')\<rparr>)
        [(schemaPayload, Inl ''timeout'')] =
       ((None, Some (TransportError ''timeout'')),
        sampleClient\<lparr>once := True, schemaErr := Some (TransportError ''timeout'')\<rparr>,
        [(schemaPayload, Inl ''timeout'')])\<close>
    using schema_fetch_attempted_once [OF run, of \<open>[(schemaPayload, Inl ''timeout'')]\<close>]
    by simp
  have spent: \<open>once (sampleClient\<lparr>once := True, schemaErr := Some (TransportError ''timeout'')\<rparr>)\<close>
    by simp
  have same: \<open>[(schemaPayload, Inl ''timeout'')] = ([(schemaPayload, Inl ''timeout'')] :: world)\<close>
    using schema_fetch_attempted_once [OF later] spent by blast
  show ?thesis
    using run again later spent same
      schema_fetch_attempted_once [OF run, of \<open>[(schemaPayload, Inl ''timeout'')]\<close> \<open>[[], [], []]\<close>]
    by (simp del: getSchemasCalls.simps)
qed

section \<open>Remote Invoker: the id of the response\<close>

text \<open>
  C1, as stated, fails: the id of the response is not the top-level \<^verbatim>\<open>id\<close> of the reply.
  The reply \<^verbatim>\<open>{"id":"abc","result":{}}\<close> decodes to an object whose top-level
  \<^verbatim>\<open>id\<close> is \<^verbatim>\<open>abc\<close>, and the response has the empty id.
\<close>

theorem response_id_top_level_counterexample:
  \<open>Unmarshal sampleEnv ''{"id":"abc","result":{}}'' =
     Some (GMap [(''id'', GStr ''abc''), (''result'', GMap [])])
   \<and> invokeLambda sampleEnv sampleClient []
        \<lparr>Action = ''create'', Args = Some [(''a'', GNum 1)], State = Some [], Store = Some [],
         Planning = False\<rparr> =
       (Inr \<lparr>ID = [], Result = Some [], RStore = None, Replace = False, Reason = []\<rparr>,
        [(\<lparr>Action = ''create'', Args = Some [(''a'', GNum 1)], State = Some [],
           Store = Some [], Planning = False\<rparr>,
          Inr \<lparr>FunctionError = None, Payload = ''{"id":"abc","result":{}}''\<rparr>)])\<close>
  by code_simp

text \<open>
  C1, amended.  For every remote invocation, of any action, whose reply decodes as a JSON
  object, \<^verbatim>\<open>invokeLambda\<close> returns a response, and the id of the response is the string
  at the key \<^verbatim>\<open>id\<close> of the response's result, the empty string when there is none.
  When the reply's \<^verbatim>\<open>result\<close> is a JSON object, the result is that object, so the id is
  the \<^verbatim>\<open>id\<close> inside \<^verbatim>\<open>result\<close>; when the reply has no \<^verbatim>\<open>result\<close>, the id is empty.
\<close>

theorem response_id_from_result:
  assumes enc: "Marshal E (payloadJSON p) = Some bytes"
    and inv: "Invoke E w (LambdaName c) bytes = Inr resp"
    and nofe: "FunctionError resp = None"
    and dec: "Unmarshal E (Payload resp) = Some (GMap out)"
  shows "\<exists>res. invokeLambda E c w p = (Inr res, w @ [(p, Inr resp)])
           \<and> ID res = (case lookup (Result res) ''id'' of Some (GStr s) \<Rightarrow> s | _ \<Rightarrow> [])
           \<and> (\<forall>rv. map_of out ''result'' = Some (GMap rv) \<longrightarrow>
                  Result res = Some rv
                  \<and> ID res = (case map_of rv ''id'' of Some (GStr s) \<Rightarrow> s | _ \<Rightarrow> []))
           \<and> (map_of out ''result'' = None \<longrightarrow> ID res = [])"
  using assms
  by (simp add: invokeLambda_def readReply_def unmarshalMap_def lookup_def Let_def
           split: option.splits goval.splits prod.splits)

theorem response_id_from_result_witness:
  \<open>Marshal sampleEnv (payloadJSON \<lparr>Action = ''delete'', Args = Some [(''a'', GNum 1)],
                                    State = Some [], Store = Some [], Planning = False\<rparr>) =
     Some ''{"action":"delete","args":{"a":1}}''
   \<and> Invoke sampleEnv [] (LambdaName sampleClient) ''{"action":"delete","args":{"a":1}}'' =
       Inr \<lparr>FunctionError = None, Payload = ''{"result":{"id":"r-1"}}''\<rparr>
   \<and> Unmarshal sampleEnv ''{"result":{"id":"r-1"}}'' =
       Some (GMap [(''result'', GMap [(''id'', GStr ''r-1'')])])
   \<and> (\<exists>res. invokeLambda sampleEnv sampleClient []
               \<lparr>Action = ''delete'', Args = Some [(''a'', GNum 1)], State = Some [],
                Store = Some [], Planning = False\<rparr> =
              (Inr res,
               [(\<lparr>Action = ''delete'', Args = Some [(''a'', GNum 1)], State = Some [],
                  Store = Some [], Planning = False\<rparr>,
                 Inr \<lparr>FunctionError = None, Payload = ''{"result":{"id":"r-1"}}''\<rparr>)])
            \<and> Result res = Some [(''id'', GStr ''r-1'')] \<and> ID res = ''r-1'')
   \<and> Unmarshal sampleEnv ''{"id":""}'' = Some (GMap [(''id'', GStr [])])
   \<and> (\<exists>res. invokeLambda sampleEnv sampleClient []
               \<lparr>Action = ''delete'', Args = Some [(''k'', GStr ''v'')], State = Some [],
                Store = Some [], Planning = False\<rparr> =
              (Inr res,
               [(\<lparr>Action = ''delete'', Args = Some [(''k'', GStr ''v'')], State = Some [],
                  Store = Some [], Planning = False\<rparr>,
                 Inr \<lparr>FunctionError = None, Payload = ''{"id":""}''\<rparr>)])
            \<and> ID res = [])\<close>
proof -
  have enc: \<open>Marshal sampleEnv (payloadJSON \<lparr>Action = ''delete'', Args = Some [(''a'', GNum 1)],
                                    State = Some [], Store = Some [], Planning = False\<rparr>) =
     Some ''{"action":"delete","args":{"a":1}}''\<close>
    by code_simp
  have inv: \<open>Invoke sampleEnv [] (LambdaName sampleClient) ''{"action":"delete","args":{"a":1}}'' =
       Inr \<lparr>FunctionError = None, Payload = ''{"result":{"id":"r-1"}}''\<rparr>\<close>
    by code_simp
  have nofe: \<open>FunctionError \<lparr>FunctionError = None, Payload = ''{"result":{"id":"r-1"}}''\<rparr> = None\<close>
    by simp
  have dec: \<open>Unmarshal sampleEnv
               (Payload \<lparr>FunctionError = None, Payload = ''{"result":{"id":"r-1"}}''\<rparr>) =
             Some (GMap [(''result'', GMap [(''id'', GStr ''r-1'')])])\<close>
    by code_simp
  have enc2: \<open>Marshal sampleEnv (payloadJSON \<lparr>Action = ''delete'',
                 Args = Some [(''k'', GStr ''v'')], State = Some [], Store = Some [],
                 Planning = False\<rparr>) =
     Some ''{"action":"delete","args":{"k":"v"}}''\<close>
    by code_simp
  have inv2: \<open>Invoke sampleEnv [] (LambdaName sampleClient)
                ''{"action":"delete","args":{"k":"v"}}'' =
       Inr \<lparr>FunctionError = None, Payload = ''{"id":""}''\<rparr>\<close>
    by code_simp
  have nofe2: \<open>FunctionError \<lparr>FunctionError = None, Payload = ''{"id":""}''\<rparr> = None\<close>
    by simp
  have dec2: \<open>Unmarshal sampleEnv (Payload \<lparr>FunctionError = None, Payload = ''{"id":""}''\<rparr>) =
             Some (GMap [(''id'', GStr [])])\<close>
    by code_simp
  have one: \<open>\<exists>res. invokeLambda sampleEnv sampleClient []
               \<lparr>Action = ''delete'', Args = Some [(''a'', GNum 1)], State = Some [],
                Store = Some [], Planning = False\<rparr> =
              (Inr res,
               [(\<lparr>Action = ''delete'', Args = Some [(''a'', GNum 1)], State = Some [],
                  Store = Some [], Planning = False\<rparr>,
                 Inr \<lparr>FunctionError = None, Payload = ''{"result":{"id":"r-1"}}''\<rparr>)])
            \<and> Result res = Some [(''id'', GStr ''r-1'')] \<and> ID res = ''r-1''\<close>
    using response_id_from_result [OF enc inv nofe dec] by auto
  have two: \<open>\<exists>res. invokeLambda sampleEnv sampleClient []
               \<lparr>Action = ''delete'', Args = Some [(''k'', GStr ''v'')], State = Some [],
                Store = Some [], Planning = False\<rparr> =
              (Inr res,
               [(\<lparr>Action = ''delete'', Args = Some [(''k'', GStr ''v'')], State = Some [],
                  Store = Some [], Planning = False\<rparr>,
                 Inr \<lparr>FunctionError = None, Payload = ''{"id":""}''\<rparr>)])
            \<and> ID res = []\<close>
    using response_id_from_result [OF enc2 inv2 nofe2 dec2] by auto
  show ?thesis
    using enc inv dec dec2 one two by simp
qed

section \<open>The decoder of the model inverts its encoder\<close>

lemma hexVal_hexDigit: "n < 16 \<Longrightarrow> hexVal (hexDigit n) = Some n"
proof -
  assume "n < 16"
  then have "n \<in> set [0..<16]" by simp
  then show ?thesis
    by (simp add: upt_rec [of _ 16] hexVal_def hexDigit_def) (elim disjE; simp)
qed

lemma char_eqI: "of_char c = (of_char d :: nat) \<Longrightarrow> c = d"
  by simp

lemma hexVal_zero: "hexVal CHR ''0'' = Some 0"
  by (simp add: hexVal_def)

lemma parseString_encChar:
  assumes "parseString rest = Some (s, r)"
  shows "parseString (encChar c @ rest) = Some (c # s, r)"
proof -
  define n where "n = (of_char c :: nat)"
  have n256: "n < 256" by (simp add: n_def)
  consider "n = 0x22" | "n = 0x5C" | "n = 8" | "n = 12" | "n = 10" | "n = 13" | "n = 9"
    | "n \<notin> {0x22, 0x5C, 8, 12, 10, 13, 9}" "n < 0x20 \<or> n = 0x3C \<or> n = 0x3E \<or> n = 0x26"
    | "n \<notin> {0x22, 0x5C, 8, 12, 10, 13, 9}" "\<not> (n < 0x20 \<or> n = 0x3C \<or> n = 0x3E \<or> n = 0x26)"
    by blast
  then show ?thesis
  proof cases
    case 1
    then have "c = CHR 0x22" unfolding n_def by (intro char_eqI) simp
    then show ?thesis using assms by (simp add: encChar_def unescape_def)
  next
    case 2
    then have "c = CHR 0x5C" unfolding n_def by (intro char_eqI) simp
    then show ?thesis using assms by (simp add: encChar_def unescape_def)
  next
    case 3
    then have "c = CHR 0x08" unfolding n_def by (intro char_eqI) simp
    then show ?thesis using assms by (simp add: encChar_def unescape_def)
  next
    case 4
    then have "c = CHR 0x0C" unfolding n_def by (intro char_eqI) simp
    then show ?thesis using assms by (simp add: encChar_def unescape_def)
  next
    case 5
    then have "c = CHR 0x0A" unfolding n_def by (intro char_eqI) simp
    then show ?thesis using assms by (simp add: encChar_def unescape_def)
  next
    case 6
    then have "c = CHR 0x0D" unfolding n_def by (intro char_eqI) simp
    then show ?thesis using assms by (simp add: encChar_def unescape_def)
  next
    case 7
    then have "c = CHR 0x09" unfolding n_def by (intro char_eqI) simp
    then show ?thesis using assms by (simp add: encChar_def unescape_def)
  next
    case 8
    have lt: "n < 0x80" using 8 by auto
    have d: "n div 16 < 16" "n mod 16 < 16" using n256 by auto
    have e: "encChar c =
               [CHR 0x5C, CHR ''u'', CHR ''0'', CHR ''0'', hexDigit (n div 16), hexDigit (n mod 16)]"
      using 8 by (auto simp: encChar_def n_def [symmetric])
    have c: "char_of n = c" by (simp add: n_def)
    show ?thesis
      using assms lt d
      by (simp add: e hexVal_hexDigit hexVal_zero utf8_def c)
  next
    case 9
    have e: "encChar c = [c]"
      using 9 by (auto simp: encChar_def n_def [symmetric])
    have "c \<noteq> CHR 0x22" "c \<noteq> CHR 0x5C" "\<not> of_char c < (0x20::nat)"
      using 9 by (auto simp: n_def)
    then show ?thesis using assms by (simp add: e)
  qed
qed

lemma parseString_escaped:
  "parseString (concat (map encChar s) @ CHR 0x22 # rest) = Some (s, rest)"
  by (induction s) (simp_all add: parseString_encChar)

lemma parseString_quoteString:
  "parseString (tl (quoteString s) @ rest) = Some (s, rest)"
  by (simp add: quoteString_def parseString_escaped)


lemma skipSpace_Cons: "\<not> isSpace c \<Longrightarrow> skipSpace (c # cs) = c # cs"
  by (simp add: skipSpace_def)

lemma skipSpace_Nil [simp]: "skipSpace [] = []"
  by (simp add: skipSpace_def)

lemma isNumChar_not_space: "isNumChar c \<Longrightarrow> \<not> isSpace c"
  by (auto simp: isNumChar_def isSpace_def)

lemma isNumChar_not_punct:
  "isNumChar c \<Longrightarrow>
   c \<noteq> CHR ''{'' \<and> c \<noteq> CHR ''['' \<and> c \<noteq> CHR 0x22 \<and> c \<noteq> CHR '']'' \<and> c \<noteq> CHR ''}''
   \<and> c \<noteq> CHR ''n'' \<and> c \<noteq> CHR ''t'' \<and> c \<noteq> CHR ''f''"
  by (auto simp: isNumChar_def)

lemma delimited_simps [simp]:
  "delimited []" "delimited (CHR '','' # r)" "delimited (CHR '']'' # r)" "delimited (CHR ''}'' # r)"
  by (simp_all add: delimited_def isNumChar_def)

lemma takeWhile_num:
  "list_all isNumChar tok \<Longrightarrow> delimited rest \<Longrightarrow> takeWhile isNumChar (tok @ rest) = tok"
  by (cases rest) (auto simp: delimited_def list_all_iff takeWhile_append2 takeWhile_append1)

lemma dropWhile_num:
  "list_all isNumChar tok \<Longrightarrow> delimited rest \<Longrightarrow> dropWhile isNumChar (tok @ rest) = rest"
  by (cases rest) (auto simp: delimited_def list_all_iff dropWhile_append2)

lemma parseValue_num:
  assumes "canonical F (GNum x)" "delimited rest"
  shows "parseValue F (Suc n) (jsonEncode F (GNum x) @ rest) = Some (GNum x, rest)"
proof -
  from assms obtain c cs where tok: "FormatFloat F x = c # cs" and num: "list_all isNumChar (c # cs)"
    and prs: "ParseFloat F (c # cs) = Some x"
    by (cases "FormatFloat F x") auto
  from num have c: "isNumChar c" by simp
  have tw: "takeWhile isNumChar (c # cs @ rest) = c # cs"
    using takeWhile_num [OF num assms(2)] by simp
  have dw: "dropWhile isNumChar (c # cs @ rest) = rest"
    using dropWhile_num [OF num assms(2)] by simp
  show ?thesis
    using isNumChar_not_punct [OF c] isNumChar_not_space [OF c] prs
    by (simp add: tok skipSpace_Cons tw dw Let_def del: takeWhile.simps dropWhile.simps)
qed

lemma parseValue_atoms:
  "parseValue F (Suc n) (jsonEncode F GNil @ rest) = Some (GNil, rest)"
  "parseValue F (Suc n) (jsonEncode F (GBool b) @ rest) = Some (GBool b, rest)"
  "parseValue F (Suc n) (jsonEncode F (GStr s) @ rest) = Some (GStr s, rest)"
  by (simp_all add: skipSpace_Cons isSpace_def quoteString_def parseString_escaped)


lemma jsonEncode_start:
  assumes "canonical F v"
  shows "\<exists>c cs. jsonEncode F v = c # cs \<and> \<not> isSpace c \<and> c \<noteq> CHR '']'' \<and> c \<noteq> CHR ''}''"
proof (cases v)
  case (GNum x)
  with assms obtain c cs where "FormatFloat F x = c # cs" "isNumChar c"
    by (cases "FormatFloat F x") auto
  then show ?thesis
    using GNum isNumChar_not_punct [of c] isNumChar_not_space [of c] by simp
qed (simp_all add: isSpace_def quoteString_def)

lemma commaSep_start:
  "xs \<noteq> [] \<Longrightarrow> hd xs = c # cs \<Longrightarrow> \<exists>r. commaSep xs = c # r"
  by (cases xs rule: commaSep.cases) auto

lemma parseElems_ok:
  assumes "\<And>v n rest. v \<in> set vs \<Longrightarrow> size v < n \<Longrightarrow> delimited rest \<Longrightarrow>
             parseValue F n (jsonEncode F v @ rest) = Some (v, rest)"
    and "vs \<noteq> []"
    and "size_list size vs < n"
  shows "parseElems F n (commaSep (map (jsonEncode F) vs) @ CHR '']'' # rest) = Some (vs, rest)"
  using assms
proof (induction vs arbitrary: n)
  case Nil
  then show ?case by simp
next
  case (Cons v ws)
  from Cons.prems(3) obtain n' where n: "n = Suc n'" by (cases n) auto
  show ?case
  proof (cases ws)
    case Nil
    have "parseValue F n' (jsonEncode F v @ CHR '']'' # rest) = Some (v, CHR '']'' # rest)"
      using Cons.prems(3) n Nil by (intro Cons.prems(1)) auto
    then show ?thesis
      by (simp add: n Nil skipSpace_Cons isSpace_def)
  next
    case (Cons w ws')
    let ?tail = "commaSep (map (jsonEncode F) ws) @ CHR '']'' # rest"
    have a: "parseValue F n' (jsonEncode F v @ CHR '','' # ?tail) = Some (v, CHR '','' # ?tail)"
      using Cons.prems(3) n by (intro Cons.prems(1)) auto
    have b: "parseElems F n' ?tail = Some (ws, rest)"
      using Cons.prems(1,3) n Cons by (intro Cons.IH) auto
    show ?thesis
      using a b by (simp add: n Cons skipSpace_Cons isSpace_def)
  qed
qed

lemma update_fresh: "k \<notin> fst ` set acc \<Longrightarrow> AList.update k v acc = acc @ [(k, v)]"
  by (induction acc) auto

lemma parseMembers_ok:
  assumes "\<And>k v n rest. (k, v) \<in> set m \<Longrightarrow> size v < n \<Longrightarrow> delimited rest \<Longrightarrow>
             parseValue F n (jsonEncode F v @ rest) = Some (v, rest)"
    and "m \<noteq> []"
    and "size_list (size_prod (\<lambda>_. 0) size) m < n"
    and "distinct (map fst (acc @ m))"
  shows "parseMembers F n acc
           (commaSep (map (\<lambda>(k, v). quoteString k @ CHR '':'' # jsonEncode F v) m)
            @ CHR ''}'' # rest) = Some (acc @ m, rest)"
  using assms
proof (induction m arbitrary: n acc)
  case Nil
  then show ?case by simp
next
  case (Cons kv ms)
  obtain k v where kv: "kv = (k, v)" by (cases kv)
  from Cons.prems(3) obtain n' where n: "n = Suc n'" by (cases n) auto
  have fresh: "k \<notin> fst ` set acc"
    using Cons.prems(4) kv by auto
  have q: "quoteString k = CHR 0x22 # tl (quoteString k)"
    by (simp add: quoteString_def)
  show ?case
  proof (cases ms)
    case Nil
    have a: "parseValue F n' (jsonEncode F v @ CHR ''}'' # rest) = Some (v, CHR ''}'' # rest)"
      using Cons.prems(3) n kv by (intro Cons.prems(1) [of k]) auto
    have "parseMembers F n acc
            (CHR 0x22 # (tl (quoteString k) @ CHR '':'' # jsonEncode F v @ CHR ''}'' # rest)) =
          Some (acc @ [(k, v)], rest)"
      using a
      by (simp add: n skipSpace_Cons isSpace_def parseString_quoteString update_fresh [OF fresh])
    then show ?thesis
      using q by (simp add: Nil kv) (metis append_Cons)
  next
    case (Cons kw ms')
    let ?tail = "commaSep (map (\<lambda>(k, v). quoteString k @ CHR '':'' # jsonEncode F v) ms)
                 @ CHR ''}'' # rest"
    have a: "parseValue F n' (jsonEncode F v @ CHR '','' # ?tail) = Some (v, CHR '','' # ?tail)"
      using Cons.prems(3) n kv by (intro Cons.prems(1) [of k]) auto
    have b: "parseMembers F n' (acc @ [(k, v)]) ?tail = Some ((acc @ [(k, v)]) @ ms, rest)"
      using Cons.prems(1,3,4) n Cons kv by (intro Cons.IH) auto
    have "parseMembers F n acc
            (CHR 0x22 # (tl (quoteString k) @ CHR '':'' # jsonEncode F v @ CHR '','' # ?tail)) =
          Some (acc @ (k, v) # ms, rest)"
      using a b
      by (simp add: n skipSpace_Cons isSpace_def parseString_quoteString update_fresh [OF fresh])
    then show ?thesis
      using q by (simp add: Cons kv) (metis append_Cons)
  qed
qed


lemma sorted_members:
  "sorted (map fst m) \<Longrightarrow>
   map snd (sort_key fst (map (\<lambda>(k, v). (k, f k v)) m)) = map (\<lambda>(k, v). f k v) m"
proof -
  assume "sorted (map fst m)"
  then have "sorted (map fst (map (\<lambda>(k, v). (k, f k v)) m))"
    by (simp add: comp_def case_prod_unfold)
  then have "sort_key fst (map (\<lambda>(k, v). (k, f k v)) m) = map (\<lambda>(k, v). (k, f k v)) m"
    by (rule sort_key_id_if_sorted)
  then show ?thesis
    by (simp add: comp_def case_prod_unfold)
qed

lemma parseValue_jsonEncode:
  "canonical F v \<Longrightarrow> size v < n \<Longrightarrow> delimited rest \<Longrightarrow>
   parseValue F n (jsonEncode F v @ rest) = Some (v, rest)"
proof (induction v arbitrary: n rest)
  case GNil
  then show ?case by (cases n) (simp_all add: parseValue_atoms del: jsonEncode.simps parseValue.simps)
next
  case (GBool b)
  then show ?case by (cases n) (simp_all add: parseValue_atoms del: jsonEncode.simps parseValue.simps)
next
  case (GNum x)
  then show ?case by (cases n) (simp_all add: parseValue_num del: jsonEncode.simps parseValue.simps canonical.simps)
next
  case (GStr s)
  then show ?case by (cases n) (simp_all add: parseValue_atoms del: jsonEncode.simps parseValue.simps)
next
  case (GList vs)
  from GList.prems(2) obtain n' where n: "n = Suc n'" by (cases n) auto
  show ?case
  proof (cases vs)
    case Nil
    then show ?thesis by (simp add: n skipSpace_Cons isSpace_def)
  next
    case (Cons w ws)
    have rep: "\<And>v. v \<in> set vs \<Longrightarrow> canonical F v"
      using GList.prems(1) by (simp add: list_all_iff)
    have el: "parseElems F n' (commaSep (map (jsonEncode F) vs) @ CHR '']'' # rest) = Some (vs, rest)"
      using GList.prems(2) n Cons rep GList.IH by (intro parseElems_ok) auto
    obtain c cs where st: "jsonEncode F w = c # cs" "\<not> isSpace c" "c \<noteq> CHR '']''"
      using jsonEncode_start [of F w] rep Cons by auto
    obtain r where cs: "commaSep (map (jsonEncode F) vs) = c # r"
      using commaSep_start [of "map (jsonEncode F) vs" c cs] st Cons by auto
    show ?thesis
      using el st by (simp add: n cs skipSpace_Cons isSpace_def)
  qed
next
  case (GMap m)
  from GMap.prems(2) obtain n' where n: "n = Suc n'" by (cases n) auto
  have srt: "sorted (map fst m)" and dst: "distinct (map fst m)"
    and rep: "\<And>k v. (k, v) \<in> set m \<Longrightarrow> canonical F v"
    using GMap.prems(1) by (auto simp: list_all_iff)
  have enc: "jsonEncode F (GMap m) =
      CHR ''{'' # commaSep (map (\<lambda>(k, v). quoteString k @ CHR '':'' # jsonEncode F v) m) @ ''}''"
    using sorted_members [OF srt, of "\<lambda>k v. quoteString k @ CHR '':'' # jsonEncode F v"] by simp
  show ?case
  proof (cases m)
    case Nil
    then show ?thesis by (simp add: n skipSpace_Cons isSpace_def)
  next
    case (Cons kw ms)
    obtain k w where kw: "kw = (k, w)" by (cases kw)
    have ih: "\<And>k v n rest. (k, v) \<in> set m \<Longrightarrow> size v < n \<Longrightarrow> delimited rest \<Longrightarrow>
             parseValue F n (jsonEncode F v @ rest) = Some (v, rest)"
      using GMap.IH rep by fastforce
    have mem: "parseMembers F n' []
           (commaSep (map (\<lambda>(k, v). quoteString k @ CHR '':'' # jsonEncode F v) m)
            @ CHR ''}'' # rest) = Some ([] @ m, rest)"
      using GMap.prems(2) n Cons dst ih by (intro parseMembers_ok) auto
    obtain r where cs: "commaSep (map (\<lambda>(k, v). quoteString k @ CHR '':'' # jsonEncode F v) m)
                         = CHR 0x22 # r"
      using commaSep_start [of "map (\<lambda>(k, v). quoteString k @ CHR '':'' # jsonEncode F v) m"
                               "CHR 0x22" "tl (quoteString k) @ CHR '':'' # jsonEncode F w"]
        Cons kw by (auto simp: quoteString_def)
    show ?thesis
      using mem by (simp add: enc n cs skipSpace_Cons isSpace_def del: jsonEncode.simps)
  qed
qed

lemma length_commaSep:
  "xs \<noteq> [] \<Longrightarrow> length (commaSep xs) + 1 = sum_list (map length xs) + length xs"
  by (induction xs rule: commaSep.induct) auto

lemma size_list_le:
  "(\<And>x. x \<in> set xs \<Longrightarrow> f x \<le> g x) \<Longrightarrow> size_list f xs \<le> sum_list (map g xs) + length xs"
proof (induction xs)
  case Nil
  then show ?case by simp
next
  case (Cons a xs)
  then have "f a \<le> g a" and "size_list f xs \<le> sum_list (map g xs) + length xs"
    by auto
  then show ?case by simp
qed

lemma size_le_length_jsonEncode:
  "canonical F v \<Longrightarrow> size v \<le> length (jsonEncode F v)"
proof (induction v)
  case (GList vs)
  have "size_list size vs \<le> sum_list (map (length \<circ> jsonEncode F) vs) + length vs"
    using GList by (intro size_list_le) (auto simp: list_all_iff)
  then show ?case
    using length_commaSep [of "map (jsonEncode F) vs"] by (cases vs) (auto simp: comp_def)
next
  case (GMap m)
  let ?mem = "\<lambda>(k, v). quoteString k @ CHR '':'' # jsonEncode F v"
  have srt: "sorted (map fst m)"
    using GMap.prems by simp
  have enc: "jsonEncode F (GMap m) = CHR ''{'' # commaSep (map ?mem m) @ ''}''"
    using sorted_members [OF srt, of "\<lambda>k v. quoteString k @ CHR '':'' # jsonEncode F v"] by simp
  have bound: "size_list (size_prod (\<lambda>_. 0) size) m
                 \<le> sum_list (map (length \<circ> ?mem) m) + length m"
  proof (intro size_list_le)
    fix x assume x: "x \<in> set m"
    obtain k v where kv: "x = (k, v)" by (cases x)
    have "canonical F v" using GMap.prems x kv by (auto simp: list_all_iff)
    then have "size v \<le> length (jsonEncode F v)"
      using GMap.IH [of x v] x kv by auto
    then show "size_prod (\<lambda>_. 0) size x \<le> (length \<circ> ?mem) x"
      by (simp add: kv quoteString_def)
  qed
  have len: "length (jsonEncode F (GMap m)) = length (commaSep (map ?mem m)) + 2"
    by (simp add: enc del: jsonEncode.simps)
  have sz: "size (GMap m) = Suc (size_list (size_prod (\<lambda>_. 0) size) m)"
    by simp
  show ?case
  proof (cases "m = []")
    case True
    then show ?thesis by simp
  next
    case False
    then have "length (commaSep (map ?mem m)) + 1 = sum_list (map (length \<circ> ?mem) m) + length m"
      using length_commaSep [of "map ?mem m"] by (simp add: comp_def)
    then show ?thesis
      using bound unfolding len sz by linarith
  qed
qed simp_all

lemma jsonUnmarshal_jsonEncode:
  "canonical F v \<Longrightarrow> jsonUnmarshal F (jsonEncode F v) = Some v"
  using parseValue_jsonEncode [of F v "Suc (length (jsonEncode F v))" "[]"]
    size_le_length_jsonEncode [of F v]
  by (simp add: jsonUnmarshal_def del: parseValue.simps)

text \<open>
  For a map in any order: the encoder sorts the keys, so a value and its form in key order
  have the same text, and the text is read back as the form in key order.
\<close>

lemma insort_key_map_fst:
  "insort_key fst (k, g k v) (map (\<lambda>(k, v). (k, g k v)) ys) =
     map (\<lambda>(k, v). (k, g k v)) (insort_key fst (k, v) ys)"
  by (induction ys) auto

lemma sort_key_map_fst:
  "sort_key fst (map (\<lambda>(k, v). (k, g k v)) xs) = map (\<lambda>(k, v). (k, g k v)) (sort_key fst xs)"
  by (induction xs) (auto simp: insort_key_map_fst)

lemma map_fst_keyed: "map fst (map (\<lambda>(k, v). (k, g k v)) xs) = map fst xs"
  by (induction xs) auto

lemma sort_key_sorted_again:
  "sort_key fst (sort_key fst xs) = sort_key fst (xs :: (string \<times> 'a) list)"
  by (rule sort_key_id_if_sorted) (rule sorted_sort_key)

lemma jsonEncode_inKeyOrder: "jsonEncode F (inKeyOrder v) = jsonEncode F v"
proof (induction v)
  case (GList vs)
  then show ?case by (simp add: comp_def cong: map_cong)
next
  case (GMap m)
  let ?T = "\<lambda>(k, v). (k, quoteString k @ CHR '':'' # jsonEncode F v)"
  let ?C = "\<lambda>(k, v). (k, inKeyOrder v)"
  have ih: "jsonEncode F (inKeyOrder v) = jsonEncode F v" if "(k, v) \<in> set m" for k v
    using GMap.IH [of "(k, v)" v] that by simp
  have eq: "map ?T (map ?C xs) = map ?T xs" if "set xs \<subseteq> set m" for xs
    using that by (induction xs) (auto simp: ih)
  have "map ?T (sort_key fst (map ?C m)) = map ?T (map ?C (sort_key fst m))"
    using sort_key_map_fst [of "\<lambda>k v. inKeyOrder v" m] by simp
  also have "\<dots> = map ?T (sort_key fst m)"
    by (rule eq) simp
  also have "\<dots> = sort_key fst (map ?T m)"
    using sort_key_map_fst [of "\<lambda>k v. quoteString k @ CHR '':'' # jsonEncode F v" m] by simp
  finally have "sort_key fst (map ?T (sort_key fst (map ?C m))) = sort_key fst (map ?T m)"
    by (simp add: sort_key_sorted_again)
  then show ?case by simp
qed simp_all

lemma canonical_inKeyOrder: "representable F v \<Longrightarrow> canonical F (inKeyOrder v)"
proof (induction v)
  case (GList vs)
  then show ?case by (auto simp: list_all_iff)
next
  case (GMap m)
  let ?C = "\<lambda>(k, v). (k, inKeyOrder v)"
  have "map fst (sort_key fst (map ?C m)) = map fst (sort_key fst m)"
    using sort_key_map_fst [of "\<lambda>k v. inKeyOrder v" m] map_fst_keyed [of "\<lambda>k v. inKeyOrder v"]
    by simp
  moreover have "distinct (map fst (sort_key fst m))"
    using GMap.prems by (simp add: distinct_map inj_on_def)
  moreover have "sorted (map fst (sort_key fst m))"
    by (rule sorted_sort_key)
  moreover have "list_all (\<lambda>(k, v). canonical F v) (sort_key fst (map ?C m))"
    using GMap by (auto simp: list_all_iff)
  ultimately show ?case by simp
qed simp_all

lemma inKeyOrder_canonical: "canonical F v \<Longrightarrow> inKeyOrder v = v \<and> representable F v"
proof (induction v)
  case (GList vs)
  then show ?case by (auto simp: list_all_iff map_idI)
next
  case (GMap m)
  have ih: "inKeyOrder v = v \<and> representable F v" if "(k, v) \<in> set m" for k v
    using GMap.IH [of "(k, v)" v] GMap.prems that by (auto simp: list_all_iff)
  have "map (\<lambda>(k, v). (k, inKeyOrder v)) m = m"
    by (rule map_idI) (auto simp: ih)
  moreover have "list_all (\<lambda>(k, v). representable F v) m"
    by (auto simp: list_all_iff ih)
  ultimately show ?case
    using GMap.prems by (simp add: sort_key_id_if_sorted)
qed simp_all

lemma jsonUnmarshal_any_order:
  "representable F v \<Longrightarrow> jsonUnmarshal F (jsonEncode F v) = Some (inKeyOrder v)"
  using jsonUnmarshal_jsonEncode [OF canonical_inKeyOrder, of F v]
  by (simp add: jsonEncode_inKeyOrder)

lemma map_of_inKeyOrder:
  assumes "distinct (map fst m)"
  shows "map_of (sort_key fst (map (\<lambda>(k, v). (k, inKeyOrder v)) m)) k =
           map_option inKeyOrder (map_of m k)"
proof -
  let ?C = "\<lambda>(k, v). (k, inKeyOrder v)"
  have "map fst (map ?C m) = map fst m"
    by (induction m) auto
  then have d1: "distinct (map fst (map ?C m))"
    using assms by (simp only:)
  have "map fst (sort_key fst (map ?C m)) = map fst (sort_key fst m)"
    using sort_key_map_fst [of "\<lambda>k v. inKeyOrder v" m] map_fst_keyed [of "\<lambda>k v. inKeyOrder v"]
    by simp
  then have d2: "distinct (map fst (sort_key fst (map ?C m)))"
    using assms by (simp add: distinct_map inj_on_def)
  have "map_of (sort_key fst (map ?C m)) = map_of (map ?C m)"
    using d1 d2 by (simp add: map_of_inject_set)
  moreover have "map_of (map ?C m) k = map_option inKeyOrder (map_of m k)"
    by (induction m) auto
  ultimately show ?thesis by simp
qed

section \<open>Store Codec: properties\<close>

text \<open>
  C9, as stated, fails for the empty store: only the nil store is written as the empty
  string.  An empty map goes through \<^verbatim>\<open>json.Marshal\<close> like any other and is written
  as \<^verbatim>\<open>{}\<close>.
\<close>

theorem empty_store_encoding_counterexample:
  \<open>setStoreAsJSONString sampleEnv sampleData (Some []) =
     (None, sampleData\<lparr>attr_store := GStr ''{}''\<rparr>)\<close>
  by code_simp

lemma loadStore_empty [simp]: "loadStore E (GStr []) = Some []"
  by (simp add: loadStore_def GetOk_def)

lemma loadStore_decoded:
  "bytes \<noteq> [] \<Longrightarrow> Unmarshal E bytes = Some (GMap m) \<Longrightarrow> loadStore E (GStr bytes) = Some m"
  by (simp add: loadStore_def GetOk_def unmarshalMap_def)

lemma loadStore_failure:
  "fst (unmarshalMap E s (Some [])) \<noteq> None \<Longrightarrow> loadStore E (GStr s) = Some []"
  by (auto simp: loadStore_def GetOk_def unmarshalMap_def split: option.splits goval.splits)

lemma loadStore_not_string: "(\<forall>s. v \<noteq> GStr s) \<Longrightarrow> loadStore E v = Some []"
  by (cases v) (simp_all add: loadStore_def GetOk_def)

lemma jsonEncode_not_empty: "jsonEncode F (GMap m) \<noteq> []"
  by simp

lemma loadStore_round_trip:
  assumes lib: "Unmarshal E = jsonUnmarshal F" and rep: "representable F (GMap m)"
  shows "map_option GMap (loadStore E (GStr (jsonEncode F (GMap m)))) = Some (inKeyOrder (GMap m))"
proof -
  obtain m' where m': "inKeyOrder (GMap m) = GMap m'"
    by simp
  have "Unmarshal E (jsonEncode F (GMap m)) = Some (GMap m')"
    using lib jsonUnmarshal_any_order [OF rep] m' by simp
  then have "loadStore E (GStr (jsonEncode F (GMap m))) = Some m'"
    using loadStore_decoded [of "jsonEncode F (GMap m)" E m'] jsonEncode_not_empty [of F m]
    by simp
  then show ?thesis
    using m' by simp
qed

text \<open>
  C9, amended.  With \<^verbatim>\<open>encoding/json\<close> as modelled, the store codec round-trips: every
  representable store is written as its JSON text and read back as the same store, that
  is, with the same value under every key; the list that is read back is the one in key
  order, so a store that is listed in key order is read back as the very same list.  A
  nil store is written as the empty string, which is read back as the empty object; the
  empty store is written as \<^verbatim>\<open>{}\<close>, which is read back as the empty object.  Reading
  never fails: a text that does not decode, and an attribute that is not a string, give
  the empty object.
\<close>

theorem store_codec_round_trip:
  "setStoreAsJSONString E d None = (None, d\<lparr>attr_store := GStr []\<rparr>)
   \<and> loadStore E (attr_store (snd (setStoreAsJSONString E d None))) = Some []
   \<and> (Marshal E = jsonMarshal F \<and> Unmarshal E = jsonUnmarshal F \<and> representable F (GMap m) \<longrightarrow>
        setStoreAsJSONString E d (Some m) =
          (None, d\<lparr>attr_store := GStr (jsonEncode F (GMap m))\<rparr>)
        \<and> (\<exists>m'. loadStore E (attr_store (snd (setStoreAsJSONString E d (Some m)))) = Some m'
              \<and> GMap m' = inKeyOrder (GMap m)
              \<and> (\<forall>k. map_of m' k = map_option inKeyOrder (map_of m k)))
        \<and> (inKeyOrder (GMap m) = GMap m \<longrightarrow>
              loadStore E (attr_store (snd (setStoreAsJSONString E d (Some m)))) = Some m))
   \<and> (Marshal E = jsonMarshal F \<longrightarrow>
        setStoreAsJSONString E d (Some []) = (None, d\<lparr>attr_store := GStr ''{}''\<rparr>))
   \<and> (fst (unmarshalMap E s (Some [])) \<noteq> None \<longrightarrow> loadStore E (GStr s) = Some [])
   \<and> ((\<forall>s. v \<noteq> GStr s) \<longrightarrow> loadStore E v = Some [])"
proof -
  let ?got = "loadStore E (attr_store (snd (setStoreAsJSONString E d (Some m))))"
  have rt: "setStoreAsJSONString E d (Some m) =
              (None, d\<lparr>attr_store := GStr (jsonEncode F (GMap m))\<rparr>)
            \<and> (\<exists>m'. ?got = Some m' \<and> GMap m' = inKeyOrder (GMap m)
                  \<and> (\<forall>k. map_of m' k = map_option inKeyOrder (map_of m k)))
            \<and> (inKeyOrder (GMap m) = GMap m \<longrightarrow> ?got = Some m)"
    if lib: "Marshal E = jsonMarshal F" "Unmarshal E = jsonUnmarshal F"
      and rep: "representable F (GMap m)"
  proof -
    have wr: "setStoreAsJSONString E d (Some m) =
                (None, d\<lparr>attr_store := GStr (jsonEncode F (GMap m))\<rparr>)"
      using lib(1) by (simp add: setStoreAsJSONString_def jsonMarshal_def del: jsonEncode.simps)
    have "map_option GMap (loadStore E (GStr (jsonEncode F (GMap m)))) = Some (inKeyOrder (GMap m))"
      using lib(2) rep by (rule loadStore_round_trip)
    then obtain m' where rd: "?got = Some m'" and eq: "GMap m' = inKeyOrder (GMap m)"
      using wr by (auto simp del: jsonEncode.simps inKeyOrder.simps)
    have "map_of m' k = map_option inKeyOrder (map_of m k)" for k
      using eq rep map_of_inKeyOrder [of m k] by simp
    moreover have "?got = Some m" if "inKeyOrder (GMap m) = GMap m"
      using rd eq that by (simp del: inKeyOrder.simps)
    ultimately show ?thesis
      using wr rd eq by (simp del: jsonEncode.simps inKeyOrder.simps)
  qed
  have emp: "setStoreAsJSONString E d (Some []) = (None, d\<lparr>attr_store := GStr ''{}''\<rparr>)"
    if "Marshal E = jsonMarshal F"
    using that by (simp add: setStoreAsJSONString_def jsonMarshal_def)
  have nil: "setStoreAsJSONString E d None = (None, d\<lparr>attr_store := GStr []\<rparr>)
             \<and> loadStore E (attr_store (snd (setStoreAsJSONString E d None))) = Some []"
    by (simp add: setStoreAsJSONString_def)
  show ?thesis
    using rt emp nil loadStore_failure [of E s] loadStore_not_string [of v E]
    by blast
qed

theorem store_codec_round_trip_witness:
  \<open>Marshal jsonEnv = jsonMarshal sampleStrconv
   \<and> Unmarshal jsonEnv = jsonUnmarshal sampleStrconv
   \<and> representable sampleStrconv (GMap [(''n'', GList [GNum 1, GNil]), (''k'', GStr ''v'')])
   \<and> setStoreAsJSONString jsonEnv sampleData (Some [(''n'', GList [GNum 1, GNil]), (''k'', GStr ''v'')]) =
       (None, sampleData\<lparr>attr_store := GStr ''{"k":"v","n":[1,null]}''\<rparr>)
   \<and> loadStore jsonEnv (GStr ''{"k":"v","n":[1,null]}'') =
       Some [(''k'', GStr ''v''), (''n'', GList [GNum 1, GNil])]
   \<and> representable sampleStrconv (GMap [(''k'', GStr ''v''), (''n'', GList [GNum 1, GNil])])
   \<and> inKeyOrder (GMap [(''k'', GStr ''v''), (''n'', GList [GNum 1, GNil])]) =
       GMap [(''k'', GStr ''v''), (''n'', GList [GNum 1, GNil])]
   \<and> loadStore jsonEnv (attr_store (snd (setStoreAsJSONString jsonEnv sampleData
         (Some [(''k'', GStr ''v''), (''n'', GList [GNum 1, GNil])])))) =
       Some [(''k'', GStr ''v''), (''n'', GList [GNum 1, GNil])]
   \<and> setStoreAsJSONString jsonEnv sampleData (Some []) =
       (None, sampleData\<lparr>attr_store := GStr ''{}''\<rparr>)
   \<and> loadStore jsonEnv (GStr ''{}'') = Some []
   \<and> loadStore jsonEnv (attr_store (snd (setStoreAsJSONString jsonEnv sampleData None))) = Some []
   \<and> fst (unmarshalMap jsonEnv ''<html>'' (Some [])) \<noteq> None
   \<and> loadStore jsonEnv (GStr ''<html>'') = Some []
   \<and> loadStore jsonEnv (GList []) = Some []\<close>
proof -
  define unordered where \<open>unordered = [(''n'', GList [GNum 1, GNil]), (''k'', GStr ''v'')]\<close>
  define ordered where \<open>ordered = [(''k'', GStr ''v''), (''n'', GList [GNum 1, GNil])]\<close>
  have lib: \<open>Marshal jsonEnv = jsonMarshal sampleStrconv
             \<and> Unmarshal jsonEnv = jsonUnmarshal sampleStrconv\<close>
    by (simp add: jsonEnv_def)
  have rep: \<open>representable sampleStrconv (GMap unordered)\<close>
    unfolding unordered_def by code_simp
  have rep1: \<open>representable sampleStrconv (GMap ordered)\<close>
    unfolding ordered_def by code_simp
  have rep0: \<open>representable sampleStrconv (GMap [])\<close>
    by simp
  have enc1: \<open>jsonEncode sampleStrconv (GMap unordered) = ''{"k":"v","n":[1,null]}''\<close>
    unfolding unordered_def by code_simp
  have norm: \<open>inKeyOrder (GMap unordered) = GMap ordered\<close>
    unfolding unordered_def ordered_def by code_simp
  have norm1: \<open>inKeyOrder (GMap ordered) = GMap ordered\<close>
    unfolding ordered_def by code_simp
  have bad: \<open>fst (unmarshalMap jsonEnv ''<html>'' (Some [])) \<noteq> None\<close>
    by code_simp
  have nstr: \<open>\<forall>s. GList [] \<noteq> GStr s\<close> by simp
  note one = store_codec_round_trip
        [where E = jsonEnv and F = sampleStrconv and d = sampleData
           and m = unordered and s = \<open>''<html>''\<close> and v = \<open>GList []\<close>]
  note two = store_codec_round_trip
        [where E = jsonEnv and F = sampleStrconv and d = sampleData and m = \<open>[]\<close>]
  note three = store_codec_round_trip
        [where E = jsonEnv and F = sampleStrconv and d = sampleData and m = ordered]
  have a: \<open>setStoreAsJSONString jsonEnv sampleData (Some unordered) =
            (None, sampleData\<lparr>attr_store := GStr ''{"k":"v","n":[1,null]}''\<rparr>)\<close>
    using one lib rep enc1 by (simp del: jsonEncode.simps representable.simps inKeyOrder.simps)
  have \<open>\<exists>m'. loadStore jsonEnv (attr_store (snd (setStoreAsJSONString jsonEnv sampleData
                (Some unordered)))) = Some m' \<and> GMap m' = inKeyOrder (GMap unordered)\<close>
    using one lib rep by blast
  then have b: \<open>loadStore jsonEnv (GStr ''{"k":"v","n":[1,null]}'') = Some ordered\<close>
    using a norm by (auto simp del: inKeyOrder.simps)
  have b1: \<open>loadStore jsonEnv (attr_store (snd (setStoreAsJSONString jsonEnv sampleData
                (Some ordered)))) = Some ordered\<close>
    using three lib rep1 norm1 by blast
  have c: \<open>setStoreAsJSONString jsonEnv sampleData (Some []) =
       (None, sampleData\<lparr>attr_store := GStr ''{}''\<rparr>)\<close>
    using two lib by blast
  have \<open>\<exists>m'. loadStore jsonEnv (attr_store (snd (setStoreAsJSONString jsonEnv sampleData
                (Some [])))) = Some m' \<and> GMap m' = inKeyOrder (GMap [])\<close>
    using two lib rep0 by blast
  then have d: \<open>loadStore jsonEnv (GStr ''{}'') = Some []\<close>
    using c by auto
  have e: \<open>loadStore jsonEnv (attr_store (snd (setStoreAsJSONString jsonEnv sampleData None))) =
            Some []\<close>
    using one by blast
  have f: \<open>loadStore jsonEnv (GStr ''<html>'') = Some [] \<and> loadStore jsonEnv (GList []) = Some []\<close>
    using one bad nstr by blast
  show ?thesis
    using lib rep rep1 norm1 a b b1 c d e f bad unfolding unordered_def ordered_def by blast
qed

section \<open>Diff Engine and previous arguments: properties\<close>

lemma CustomizeDiff_skips:
  assumes "old_args d = GStr [] \<or> old_args d = GStr ''{}'' \<or> (\<forall>s. old_args d \<noteq> GStr s)"
  shows "snd (CustomizeDiff E c w d) = (w, d)"
  using assms
  by (cases "old_args d")
     (auto simp: CustomizeDiff_def Let_def split: sum.splits)

lemma CustomizeDiff_list_args:
  "old_args d = GList xs \<Longrightarrow> new_args d = GList ys \<Longrightarrow> CustomizeDiff E c w d = (None, w, d)"
  by (simp add: CustomizeDiff_def parseArgsJSON_def Let_def)

lemma getPreviousArgs_list_args: "attr_args d = GList xs \<Longrightarrow> getPreviousArgs E d = Some []"
  by (simp add: getPreviousArgs_def GetOk_def)

lemma getPreviousArgs_single_string:
  "\<not> IsNewResource d \<Longrightarrow> attr_args d = GStr s \<Longrightarrow> s \<noteq> [] \<Longrightarrow>
   Unmarshal E s = Some (GMap m) \<Longrightarrow> getPreviousArgs E d = Some m"
  by (simp add: getPreviousArgs_def GetOk_def parseArgsJSON_def unmarshalMap_def)

text \<open>
  With the prior arguments as one JSON string (the form \<^verbatim>\<open>parseArgsJSON\<close> keeps as a
  fallback) the diff check does invoke the remote function, with the prior arguments as the
  state, and marks the resource for replacement on its answer.
\<close>

lemma diff_legacy_string_run:
  \<open>CustomizeDiff sampleEnv sampleClient [] (sampleDiff\<lparr>old_args := GStr ''{"a":1}''\<rparr>) =
     (None,
      [(\<lparr>Action = ''diff'', Args = Some [(''a'', GNum 2)], State = Some [(''a'', GNum 1)],
         Store = Some [], Planning = False\<rparr>,
        Inr \<lparr>FunctionError = None, Payload = ''{"reason":"type changed","replace":true}''\<rparr>)],
      sampleDiff\<lparr>old_args := GStr ''{"a":1}'', forcedNew := True\<rparr>)\<close>
  by code_simp

text \<open>
  C2 at a failing input.  The resource has prior arguments, the list
  \<^verbatim>\<open>["{\"a\":1}"]\<close>, and the plan changes them to \<^verbatim>\<open>["{\"a\":2}"]\<close>.  The prior
  value is a list, as the schema of \<^verbatim>\<open>args\<close> declares, so \<^verbatim>\<open>old.(string)\<close> fails,
  \<^verbatim>\<open>isCreate\<close> is true and the diff check returns without any remote call.
\<close>

theorem diff_not_invoked_with_prior_args:
  \<open>old_args sampleDiff = GList [GStr ''{"a":1}'']
   \<and> parseArgsJSON sampleEnv (old_args sampleDiff) = Inr (Some [(''a'', GNum 1)])
   \<and> CustomizeDiff sampleEnv sampleClient [] sampleDiff = (None, [], sampleDiff)\<close>
  by code_simp

theorem diff_not_invoked_with_prior_args_witness:
  "fst (CustomizeDiff sampleEnv sampleClient [] sampleDiff) = None
   \<and> fst (snd (CustomizeDiff sampleEnv sampleClient [] sampleDiff)) = []
   \<and> forcedNew (snd (snd (CustomizeDiff sampleEnv sampleClient [] sampleDiff))) = False"
  using diff_not_invoked_with_prior_args by (simp add: sampleDiff_def)

text \<open>
  C3 at a failing input.  The resource has the persisted arguments \<^verbatim>\<open>["{\"a\":1}"]\<close>,
  which merge to \<^verbatim>\<open>{"a":1}\<close>.  \<^verbatim>\<open>getPreviousArgs\<close> asserts a string, finds a list
  and returns the empty object, and the requests of read, update and delete carry the
  empty object as their state.
\<close>

theorem previous_args_not_sent:
  \<open>attr_args sampleData = GList [GStr ''{"a":1}'']
   \<and> parseArgsJSON sampleEnv (attr_args sampleData) = Inr (Some [(''a'', GNum 1)])
   \<and> getPreviousArgs sampleEnv sampleData = Some []
   \<and> map fst (fst (snd (snd (resourceRemote Read sampleEnv sampleClient [] sampleData)))) =
       [schemaPayload,
        \<lparr>Action = ''read'', Args = Some [(''a'', GNum 1)], State = Some [], Store = Some [],
         Planning = False\<rparr>]
   \<and> map fst (fst (snd (snd (resourceRemote Update sampleEnv sampleClient [] sampleData)))) =
       [schemaPayload,
        \<lparr>Action = ''update'', Args = Some [(''a'', GNum 1)], State = Some [], Store = Some [],
         Planning = False\<rparr>]
   \<and> map fst (fst (snd (snd (resourceRemote Delete sampleEnv sampleClient [] sampleData)))) =
       [schemaPayload,
        \<lparr>Action = ''delete'', Args = Some [(''a'', GNum 1)], State = Some [], Store = Some [],
         Planning = False\<rparr>]\<close>
  by code_simp

theorem previous_args_not_sent_witness:
  \<open>parseArgsJSON sampleEnv (attr_args sampleData) = Inr (Some [(''a'', GNum 1)])
   \<and> getPreviousArgs sampleEnv sampleData = Some []
   \<and> map (State \<circ> fst)
        (fst (snd (snd (resourceRemote Read sampleEnv sampleClient [] sampleData)))) =
       [None, Some []]\<close>
proof -
  have "map (State \<circ> fst)
          (fst (snd (snd (resourceRemote Read sampleEnv sampleClient [] sampleData)))) =
        map State
          (map fst (fst (snd (snd (resourceRemote Read sampleEnv sampleClient [] sampleData)))))"
    by simp
  moreover from previous_args_not_sent
  have "parseArgsJSON sampleEnv (attr_args sampleData) = Inr (Some [(''a'', GNum 1)])"
    and "getPreviousArgs sampleEnv sampleData = Some []"
    and "map fst (fst (snd (snd (resourceRemote Read sampleEnv sampleClient [] sampleData)))) =
           [schemaPayload,
            \<lparr>Action = ''read'', Args = Some [(''a'', GNum 1)], State = Some [],
             Store = Some [], Planning = False\<rparr>]"
    by blast+
  ultimately show ?thesis
    by (simp add: schemaPayload_def)
qed

end
